theory Spec2Isabelle
  imports Main "HOL-Library.Sublist"
begin

section \<open>The login commands of the bridge (commands/telegram/auth.py)\<close>

text \<open>
  The module is a set of coroutines that talk to collaborators which are not part of it:
  the Telegram client of a bridge user, the Matrix intents, the user table. A call to a
  collaborator is modelled as an \<^emph>\<open>action\<close>: it is appended to a trace, and its outcome
  (a value or an exception) is read from an environment, which may answer differently
  depending on the trace so far. The only memory the module itself writes is
  \<open>evt.sender.command_status\<close>.

  What the model leaves out: cancellation of a coroutine (every exception is an
  \<open>Exception\<close>, so \<open>except Exception\<close> catches it); the rendering of the QR image, which is
  taken to be a total function of the URL; and the commands \<open>ping\<close>, \<open>ping_bot\<close>, \<open>login\<close>
  and \<open>logout\<close>, about which nothing is proved here.
\<close>

subsection \<open>Data\<close>

text \<open>A bridge user (\<open>u.User\<close>) is identified by its Matrix ID; Python compares the objects.\<close>

type_synonym account = string
type_synonym event_id = string

text \<open>telethon's \<open>User\<close>: the fields the module reads.\<close>

record tg_user =
  uid :: int
  username :: "string option"
  phone :: "string option"

text \<open>The exceptions the module names, all subclasses of \<open>Exception\<close>.\<close>

datatype exn =
    AccessTokenExpiredError
  | AccessTokenInvalidError
  | FloodWaitError int
  | PasswordHashInvalidError
  | PhoneCodeExpiredError
  | PhoneCodeInvalidError
  | PhoneNumberAppSignupForbiddenError
  | PhoneNumberBannedError
  | PhoneNumberFloodError
  | PhoneNumberInvalidError
  | PhoneNumberUnoccupiedError
  | SessionPasswordNeededError
  | TimeoutError
  | AttributeError
  | OtherError string

text \<open>The command handlers that can be stored under the key \<open>"next"\<close>.\<close>

datatype handler = EnterPhoneOrToken | EnterCode | EnterPassword

text \<open>
  The \<open>command_status\<close> dictionary. The key \<open>"login_as"\<close> may be absent (\<open>None\<close>),
  or present with the value \<open>None\<close> or a user.
\<close>

record status =
  st_next :: handler
  st_login_as :: "account option option"
  st_action :: string

record command_event =
  sender :: account
  args :: "string list"
  config :: "string \<rightharpoonup> bool"
  room_id :: string
  event_id :: event_id

datatype sign_in_info = PhoneNumber string | BotToken string | Code string | Password string

datatype relation = ReplyTo event_id | EditOf "event_id option"

datatype content =
    MediaMessage string string relation
  | TextMessage string relation

datatype task = PostLogin account tg_user bool

datatype action =
    GetByMxid string
  | IsLoggedIn account
  | EnsureStarted account
  | Recreate
  | UploadMedia string
  | SendMessage string content
  | Wait
  | IntentRedact string "event_id option" string
  | Reply string
  | EvtRedact
  | SignIn account sign_in_info
  | GetByTgid int
  | LogOut account
  | CreateTask task
  | LogException string

text \<open>
  The collaborators. \<open>qr_supported\<close> says that the optional imports (\<open>qrcode\<close>,
  \<open>QRLogin\<close>) succeeded; the next three are attributes of a user; \<open>fmt_duration\<close> is the
  helper that formats a number of seconds, which like any call may raise instead of
  returning (it does for a duration that is not positive); the \<open>run_\<close> fields answer the
  awaited calls, by result type.
\<close>

record env =
  qr_supported :: bool
  is_admin :: "account \<Rightarrow> bool"
  human_tg_id :: "account \<Rightarrow> string"
  displayname :: "account \<Rightarrow> string"
  fmt_duration :: "int \<Rightarrow> exn + string"
  run_unit :: "action list \<Rightarrow> action \<Rightarrow> exn + unit"
  run_bool :: "action list \<Rightarrow> action \<Rightarrow> exn + bool"
  run_str :: "action list \<Rightarrow> action \<Rightarrow> exn + string"
  run_auth :: "action list \<Rightarrow> action \<Rightarrow> exn + tg_user"
  run_lookup :: "action list \<Rightarrow> action \<Rightarrow> exn + account option"

record world =
  command_status :: "status option"
  trace :: "action list"

subsection \<open>Sequencing, exceptions, calls\<close>

type_synonym 'a prog = "world \<Rightarrow> (exn + 'a) \<times> world"

definition ret :: "'a \<Rightarrow> 'a prog" where
  "ret x s = (Inr x, s)"

definition raise :: "exn \<Rightarrow> 'a prog" where
  "raise e s = (Inl e, s)"

definition seq :: "'a prog \<Rightarrow> ('a \<Rightarrow> 'b prog) \<Rightarrow> 'b prog" where
  "seq m f s = (case m s of (Inl e, s') \<Rightarrow> (Inl e, s') | (Inr x, s') \<Rightarrow> f x s')"

definition try_except :: "'a prog \<Rightarrow> (exn \<Rightarrow> 'a prog) \<Rightarrow> 'a prog" where
  "try_except m h s = (case m s of (Inl e, s') \<Rightarrow> h e s' | (Inr x, s') \<Rightarrow> (Inr x, s'))"

text \<open>An awaited call to a collaborator: logged, then answered by the environment.\<close>

definition call :: "(action list \<Rightarrow> action \<Rightarrow> exn + 'a) \<Rightarrow> action \<Rightarrow> 'a prog" where
  "call run a s = (run (trace s) a, s\<lparr>trace := trace s @ [a]\<rparr>)"

text \<open>A synchronous call that is only logged (\<open>background_task.create\<close>, \<open>evt.log.exception\<close>).\<close>

definition perform :: "action \<Rightarrow> unit prog" where
  "perform a s = (Inr (), s\<lparr>trace := trace s @ [a]\<rparr>)"

definition set_command_status :: "status option \<Rightarrow> unit prog" where
  "set_command_status v s = (Inr (), s\<lparr>command_status := v\<rparr>)"

definition get_command_status :: "status option prog" where
  "get_command_status s = (Inr (command_status s), s)"

definition reply :: "env \<Rightarrow> string \<Rightarrow> event_id prog" where
  "reply env text = call (run_str env) (Reply text)"

subsection \<open>Python helpers\<close>

text \<open>\<open>str.find\<close> for a one-character needle: the lowest index, or \<open>-1\<close>.\<close>

fun str_find :: "string \<Rightarrow> char \<Rightarrow> int" where
  "str_find [] c = - 1"
| "str_find (x # xs) c =
     (if x = c then 0 else (let r = str_find xs c in if r < 0 then - 1 else r + 1))"

text \<open>\<open>sep.join(xs)\<close>.\<close>

fun str_join :: "string \<Rightarrow> string list \<Rightarrow> string" where
  "str_join sep [] = []"
| "str_join sep [x] = x"
| "str_join sep (x # y # ys) = x @ sep @ str_join sep (y # ys)"

text \<open>\<open>evt.config.get(key, default)\<close>.\<close>

definition config_get :: "command_event \<Rightarrow> string \<Rightarrow> bool \<Rightarrow> bool" where
  "config_get evt key dflt = (case config evt key of None \<Rightarrow> dflt | Some v \<Rightarrow> v)"

text \<open>\<open>command_status.get("login_as", None)\<close>.\<close>

definition get_login_as :: "status \<Rightarrow> account option" where
  "get_login_as st = (case st_login_as st of None \<Rightarrow> None | Some v \<Rightarrow> v)"

text \<open>Truth value of an \<open>EventID | None\<close>: \<open>None\<close> and the empty string are false.\<close>

definition truthy :: "event_id option \<Rightarrow> bool" where
  "truthy q = (case q of None \<Rightarrow> False | Some e \<Rightarrow> e \<noteq> [])"

text \<open>
  The name in the success message: an at sign and \<open>user.username\<close> if that is set and not
  empty, else a plus sign and \<open>user.phone\<close> as the f-string formats it.
\<close>

definition handle_of :: "tg_user \<Rightarrow> string" where
  "handle_of user =
     (let plus = ''+'' @ (case phone user of None \<Rightarrow> ''None'' | Some p \<Rightarrow> p)
      in case username user of
           None \<Rightarrow> plus
         | Some n \<Rightarrow> if n \<noteq> [] then ''@'' @ n else plus)"

definition not_allowed_msg :: string where
  "not_allowed_msg =
     ''This bridge instance does not allow in-Matrix login. '' @
     ''Please use `$cmdprefix+sp login` to get login instructions''"

definition two_factor_msg :: string where
  "two_factor_msg =
     ''Your account has two-factor authentication. Please send your password here.''"

subsection \<open>\<open>_finish_sign_in\<close>\<close>

text \<open>The two f-strings of \<open>_finish_sign_in\<close>.\<close>

definition logged_out_notice :: "env \<Rightarrow> account \<Rightarrow> string" where
  "logged_out_notice env existing_user =
     ''['' @ displayname env existing_user @ ''] (https://matrix.to/#/'' @ existing_user
       @ '') was logged out from the account.''"

definition success_msg :: "command_event \<Rightarrow> account \<Rightarrow> tg_user \<Rightarrow> string" where
  "success_msg evt login_as user =
     (let name = handle_of user in
      if login_as \<noteq> sender evt
      then ''Successfully logged in ['' @ login_as @ ''](https://matrix.to/#/''
           @ login_as @ '') as '' @ name
      else ''Successfully logged in as '' @ name)"

definition finish_sign_in ::
  "env \<Rightarrow> command_event \<Rightarrow> tg_user \<Rightarrow> account option \<Rightarrow> event_id prog" where
  "finish_sign_in env evt user login_as0 =
     (let login_as = (case login_as0 of None \<Rightarrow> sender evt | Some a \<Rightarrow> a) in
      seq (call (run_lookup env) (GetByTgid (uid user))) (\<lambda>existing_user.
      seq (case existing_user of
             None \<Rightarrow> ret ()
           | Some ex \<Rightarrow>
               if ex \<noteq> login_as then
                 seq (call (run_bool env) (LogOut ex)) (\<lambda>_.
                 seq (reply env (logged_out_notice env ex)) (\<lambda>_.
                 ret ()))
               else ret ()) (\<lambda>_.
      seq (perform (CreateTask (PostLogin login_as user True))) (\<lambda>_.
      seq (set_command_status None) (\<lambda>_.
      reply env (success_msg evt login_as user))))))"

subsection \<open>\<open>_sign_in\<close>\<close>

text \<open>The \<open>except\<close> clauses of \<open>_sign_in\<close>; any other exception propagates.\<close>

definition sign_in_except :: "env \<Rightarrow> exn \<Rightarrow> event_id option prog" where
  "sign_in_except env e =
     (case e of
        PhoneCodeExpiredError \<Rightarrow>
          seq (reply env ''Phone code expired. Try again with `$cmdprefix+sp login`.'')
            (\<lambda>r. ret (Some r))
      | PhoneCodeInvalidError \<Rightarrow>
          seq (reply env ''Invalid phone code.'') (\<lambda>r. ret (Some r))
      | PasswordHashInvalidError \<Rightarrow>
          seq (reply env ''Incorrect password.'') (\<lambda>r. ret (Some r))
      | SessionPasswordNeededError \<Rightarrow>
          seq (set_command_status
                (Some \<lparr>st_next = EnterPassword, st_login_as = None,
                       st_action = ''Login (password entry)''\<rparr>)) (\<lambda>_.
          seq (reply env two_factor_msg) (\<lambda>r. ret (Some r)))
      | _ \<Rightarrow> raise e)"

definition sign_in ::
  "env \<Rightarrow> command_event \<Rightarrow> account option \<Rightarrow> sign_in_info \<Rightarrow> event_id option prog" where
  "sign_in env evt login_as0 sign_in_info =
     (let login_as = (case login_as0 of None \<Rightarrow> sender evt | Some a \<Rightarrow> a) in
      try_except
        (seq (call (run_unit env) (EnsureStarted login_as)) (\<lambda>_.
         seq (call (run_auth env) (SignIn login_as sign_in_info)) (\<lambda>user.
         seq (finish_sign_in env evt user None) (\<lambda>_.
         ret None))))
        (sign_in_except env))"

subsection \<open>\<open>_request_code\<close>\<close>

text \<open>
  The body of the \<open>try\<close>, with the local \<open>ok\<close> as it stands when the body is left. What
  \<open>client.sign_in(phone_number)\<close> returns is not used, so that call is answered by
  \<open>run_unit\<close>.
\<close>

definition request_code_body ::
  "env \<Rightarrow> command_event \<Rightarrow> string \<Rightarrow> world \<Rightarrow> (exn + event_id) \<times> bool \<times> world" where
  "request_code_body env evt phone_number s0 =
     (case call (run_unit env) (EnsureStarted (sender evt)) s0 of
        (Inl e, s1) \<Rightarrow> (Inl e, False, s1)
      | (Inr _, s1) \<Rightarrow>
          (case call (run_unit env) (SignIn (sender evt) (PhoneNumber phone_number)) s1 of
             (Inl e, s2) \<Rightarrow> (Inl e, False, s2)
           | (Inr _, s2) \<Rightarrow>
               (case reply env (''Login code sent to '' @ phone_number
                                @ ''. Please send the code here.'') s2 of
                  (r, s3) \<Rightarrow> (r, True, s3))))"

definition request_code_except :: "env \<Rightarrow> exn \<Rightarrow> event_id prog" where
  "request_code_except env e =
     (case e of
        PhoneNumberAppSignupForbiddenError \<Rightarrow>
          reply env ''Your phone number does not allow 3rd party apps to sign in.''
      | PhoneNumberFloodError \<Rightarrow>
          reply env (''Your phone number has been temporarily blocked for flooding. '' @
                     ''The ban is usually applied for around a day.'')
      | FloodWaitError seconds \<Rightarrow>
          (case fmt_duration env seconds of
             Inl e' \<Rightarrow> raise e'
           | Inr duration \<Rightarrow>
               reply env (''Your phone number has been temporarily blocked for flooding. '' @
                          ''Please wait for '' @ duration @ '' before trying again.''))
      | PhoneNumberBannedError \<Rightarrow>
          reply env ''Your phone number has been banned from Telegram.''
      | PhoneNumberUnoccupiedError \<Rightarrow>
          reply env (''That phone number has not been registered. '' @
                     ''Please sign up to Telegram using an official mobile client first.'')
      | PhoneNumberInvalidError \<Rightarrow>
          reply env ''That phone number is not valid.''
      | _ \<Rightarrow>
          seq (perform (LogException ''Error requesting phone code'')) (\<lambda>_.
          reply env (''Unhandled exception while requesting code. '' @
                     ''Check console for more details.'')))"

definition request_code ::
  "env \<Rightarrow> command_event \<Rightarrow> string \<Rightarrow> status \<Rightarrow> event_id prog" where
  "request_code env evt phone_number next_status s0 =
     (case request_code_body env evt phone_number s0 of
        (r, ok, s1) \<Rightarrow>
          (case (case r of Inl e \<Rightarrow> request_code_except env e s1 | Inr v \<Rightarrow> (Inr v, s1)) of
             (r', s2) \<Rightarrow>
               (r', s2\<lparr>command_status := (if ok then Some next_status else None)\<rparr>)))"

subsection \<open>The continuation targets\<close>

definition enter_phone_or_token :: "env \<Rightarrow> command_event \<Rightarrow> event_id option prog" where
  "enter_phone_or_token env evt =
     (if length (args evt) = 0 then
        seq (reply env ''**Usage:** `$cmdprefix+sp enter-phone-or-token <phone-or-token>`'')
          (\<lambda>r. ret (Some r))
      else if \<not> config_get evt ''bridge.allow_matrix_login'' True then
        seq (reply env not_allowed_msg) (\<lambda>r. ret (Some r))
      else if str_find (args evt ! 0) CHR '':'' > 0 then
        try_except
          (seq (sign_in env evt None (BotToken (args evt ! 0))) (\<lambda>_. ret None))
          (\<lambda>e. seq (perform (LogException ''Error sending auth token'')) (\<lambda>_.
                seq (reply env (''Unhandled exception while sending auth token. '' @
                                ''Check console for more details.'')) (\<lambda>r. ret (Some r))))
      else
        seq (request_code env evt (args evt ! 0)
               \<lparr>st_next = EnterCode, st_login_as = None, st_action = ''Login''\<rparr>) (\<lambda>_.
        ret None))"

definition enter_code :: "env \<Rightarrow> command_event \<Rightarrow> event_id option prog" where
  "enter_code env evt =
     (if length (args evt) = 0 then
        seq (reply env ''**Usage:** `$cmdprefix+sp enter-code <code>`'') (\<lambda>r. ret (Some r))
      else if \<not> config_get evt ''bridge.allow_matrix_login'' True then
        seq (reply env not_allowed_msg) (\<lambda>r. ret (Some r))
      else
        try_except
          (seq (sign_in env evt None (Code (args evt ! 0))) (\<lambda>_. ret None))
          (\<lambda>e. seq (perform (LogException ''Error sending phone code'')) (\<lambda>_.
                seq (reply env (''Unhandled exception while sending code. '' @
                                ''Check console for more details.'')) (\<lambda>r. ret (Some r)))))"

definition enter_password_except :: "env \<Rightarrow> exn \<Rightarrow> event_id option prog" where
  "enter_password_except env e =
     (case e of
        AccessTokenInvalidError \<Rightarrow>
          seq (reply env ''That bot token is not valid.'') (\<lambda>r. ret (Some r))
      | AccessTokenExpiredError \<Rightarrow>
          seq (reply env ''That bot token has expired.'') (\<lambda>r. ret (Some r))
      | _ \<Rightarrow>
          seq (perform (LogException ''Error sending password'')) (\<lambda>_.
          seq (reply env (''Unhandled exception while sending password. '' @
                          ''Check console for more details.'')) (\<lambda>r. ret (Some r))))"

definition enter_password :: "env \<Rightarrow> command_event \<Rightarrow> event_id option prog" where
  "enter_password env evt =
     (if length (args evt) = 0 then
        seq (reply env ''**Usage:** `$cmdprefix+sp enter-password <password>`'')
          (\<lambda>r. ret (Some r))
      else if \<not> config_get evt ''bridge.allow_matrix_login'' True then
        seq (reply env not_allowed_msg) (\<lambda>r. ret (Some r))
      else
        seq (call (run_unit env) EvtRedact) (\<lambda>_.
        try_except
          (seq get_command_status (\<lambda>cs.
           seq (case cs of
                  None \<Rightarrow> raise AttributeError
                | Some st \<Rightarrow>
                    sign_in env evt (get_login_as st) (Password (str_join '' '' (args evt))))
             (\<lambda>_. ret None)))
          (enter_password_except env)))"

subsection \<open>\<open>login_qr\<close>\<close>

text \<open>
  \<open>upload_qr\<close>: render the URL of the challenge, upload it, and publish it; the first time
  as a reply to the command, later as an edit of the published message. The closure
  variable \<open>qr_event_id\<close> is passed in and returned.
\<close>

definition upload_qr ::
  "env \<Rightarrow> command_event \<Rightarrow> string \<Rightarrow> event_id option \<Rightarrow> event_id option prog" where
  "upload_qr env evt url qr_event_id =
     seq (call (run_str env) (UploadMedia url)) (\<lambda>mxc.
     if truthy qr_event_id then
       seq (call (run_str env)
              (SendMessage (room_id evt) (MediaMessage url mxc (EditOf qr_event_id)))) (\<lambda>_.
       ret qr_event_id)
     else
       seq (call (run_str env)
              (SendMessage (room_id evt) (MediaMessage url mxc (ReplyTo (event_id evt)))))
         (\<lambda>e. ret (Some e)))"

text \<open>How a block is left: by \<open>break\<close>, by \<open>return\<close>, or by running to its end.\<close>

datatype flow = Broke tg_user | Returned event_id | Normal

text \<open>
  The \<open>while retries > 0\<close> loop. \<open>Normal\<close> means that the condition became false, so the
  \<open>else\<close> clause of the loop runs.
\<close>

text \<open>The \<open>except\<close> clauses around \<open>qr_login.wait()\<close>.\<close>

definition wait_except :: "env \<Rightarrow> command_event \<Rightarrow> account \<Rightarrow> exn \<Rightarrow> flow prog" where
  "wait_except env evt login_as e =
     (case e of
        TimeoutError \<Rightarrow> ret Normal
      | SessionPasswordNeededError \<Rightarrow>
          seq (set_command_status
                (Some \<lparr>st_next = EnterPassword,
                       st_login_as =
                         Some (if login_as \<noteq> sender evt then Some login_as else None),
                       st_action = ''Login (password entry)''\<rparr>)) (\<lambda>_.
          seq (reply env two_factor_msg) (\<lambda>r. ret (Returned r)))
      | _ \<Rightarrow> raise e)"

text \<open>The second \<open>try\<close> of the loop body: redact, and ignore any exception.\<close>

definition redact_qr :: "env \<Rightarrow> command_event \<Rightarrow> event_id option \<Rightarrow> unit prog" where
  "redact_qr env evt qr_event_id =
     try_except
       (seq (call (run_unit env) (IntentRedact (room_id evt) qr_event_id ''QR code scanned''))
          (\<lambda>_. ret ()))
       (\<lambda>e. ret ())"

fun qr_loop ::
  "env \<Rightarrow> command_event \<Rightarrow> account \<Rightarrow> nat \<Rightarrow> event_id option
     \<Rightarrow> (flow \<times> event_id option) prog" where
  "qr_loop env evt login_as 0 qr_event_id = ret (Normal, qr_event_id)"
| "qr_loop env evt login_as (Suc retries) qr_event_id =
     seq (call (run_str env) Recreate) (\<lambda>url.
     seq (upload_qr env evt url qr_event_id) (\<lambda>qr_event_id'.
     seq (try_except
            (seq (call (run_auth env) Wait) (\<lambda>user. ret (Broke user)))
            (wait_except env evt login_as)) (\<lambda>fl.
     case fl of
       Broke user \<Rightarrow> ret (Broke user, qr_event_id')
     | Returned r \<Rightarrow> ret (Returned r, qr_event_id')
     | Normal \<Rightarrow>
         seq (redact_qr env evt qr_event_id') (\<lambda>_.
         qr_loop env evt login_as retries qr_event_id'))))"

definition login_qr :: "env \<Rightarrow> command_event \<Rightarrow> event_id prog" where
  "login_qr env evt =
     seq (if length (args evt) > 0 \<and> is_admin env (sender evt)
          then call (run_lookup env) (GetByMxid (args evt ! 0))
          else ret (Some (sender evt))) (\<lambda>login_as0.
     if \<not> qr_supported env then
       reply env ''This bridge instance does not support logging in with a QR code.''
     else
       seq (case login_as0 of None \<Rightarrow> raise AttributeError | Some a \<Rightarrow> ret a) (\<lambda>login_as.
       seq (call (run_bool env) (IsLoggedIn login_as)) (\<lambda>logged_in.
       if logged_in then
         reply env (''You are already logged in as '' @ human_tg_id env login_as @ ''.'')
       else
         seq (call (run_unit env) (EnsureStarted login_as)) (\<lambda>_.
         seq (qr_loop env evt login_as 4 None) (\<lambda>(fl, qr_event_id).
         case fl of
           Normal \<Rightarrow>
             call (run_str env)
               (SendMessage (room_id evt) (TextMessage ''Login timed out'' (EditOf qr_event_id)))
         | Returned r \<Rightarrow> ret r
         | Broke user \<Rightarrow> finish_sign_in env evt user (Some login_as))))))"

section \<open>What a program adds to the trace\<close>

text \<open>
  \<open>only_adds P m\<close>: from any state, \<open>m\<close> only appends actions to the trace, and each
  appended action satisfies \<open>P\<close>.
\<close>

definition only_adds :: "(action \<Rightarrow> bool) \<Rightarrow> 'a prog \<Rightarrow> bool" where
  "only_adds P m = (\<forall>s. \<exists>new. trace (snd (m s)) = trace s @ new \<and> list_all P new)"

section \<open>Concrete scenarios\<close>

definition user42 :: tg_user where
  "user42 = \<lparr>uid = 42, username = Some ''handle42'', phone = None\<rparr>"

text \<open>What the calls that return a string return when all goes well.\<close>

definition sent_ok :: "action \<Rightarrow> string" where
  "sent_ok a =
     (case a of
        Recreate \<Rightarrow> ''tg://login?token=abc''
      | UploadMedia u \<Rightarrow> ''mxc://example.org/qr''
      | _ \<Rightarrow> ''$sent'')"

text \<open>An environment in which every call succeeds and nobody is logged in.\<close>

definition env_ok :: env where
  "env_ok =
     \<lparr>qr_supported = True,
      is_admin = (\<lambda>a. a = ''@admin:example.org''),
      human_tg_id = (\<lambda>a. ''@handle42''),
      displayname = (\<lambda>a. ''Alice''),
      fmt_duration = (\<lambda>n. if n \<le> 0 then Inl (OtherError ''ValueError'') else Inr ''1 hour''),
      run_unit = (\<lambda>h a. Inr ()),
      run_bool = (\<lambda>h a. Inr False),
      run_str = (\<lambda>h a. Inr (sent_ok a)),
      run_auth = (\<lambda>h a. Inr user42),
      run_lookup = (\<lambda>h a. case a of GetByMxid m \<Rightarrow> Inr (Some m) | _ \<Rightarrow> Inr None)\<rparr>"

text \<open>The provider rejects the code, or the password.\<close>

definition env_invalid_code :: env where
  "env_invalid_code = env_ok\<lparr>run_auth := (\<lambda>h a. Inl PhoneCodeInvalidError)\<rparr>"

definition env_wrong_password :: env where
  "env_wrong_password = env_ok\<lparr>run_auth := (\<lambda>h a. Inl PasswordHashInvalidError)\<rparr>"

definition evt_of :: "account \<Rightarrow> string list \<Rightarrow> command_event" where
  "evt_of who as =
     \<lparr>sender = who, args = as, config = Map.empty, room_id = ''!room'', event_id = ''$cmd''\<rparr>"

text \<open>The same command on a bridge where in-Matrix login is switched off.\<close>

definition evt_disabled :: "account \<Rightarrow> string list \<Rightarrow> command_event" where
  "evt_disabled who as =
     (evt_of who as)\<lparr>config := [''bridge.allow_matrix_login'' \<mapsto> False]\<rparr>"

definition idle :: world where
  "idle = \<lparr>command_status = None, trace = []\<rparr>"

text \<open>The slot as \<open>enter_phone_or_token\<close> installs it, and as \<open>_sign_in\<close> installs it.\<close>

definition awaiting_code :: world where
  "awaiting_code =
     \<lparr>command_status =
        Some \<lparr>st_next = EnterCode, st_login_as = None, st_action = ''Login''\<rparr>,
      trace = []\<rparr>"

definition awaiting_password :: world where
  "awaiting_password =
     \<lparr>command_status =
        Some \<lparr>st_next = EnterPassword, st_login_as = None,
               st_action = ''Login (password entry)''\<rparr>,
      trace = []\<rparr>"

text \<open>The provider says that the phone number is banned.\<close>

definition env_banned :: env where
  "env_banned = env_ok\<lparr>run_unit := (\<lambda>h a. case a of SignIn who i \<Rightarrow> Inl PhoneNumberBannedError
                                          | _ \<Rightarrow> Inr ())\<rparr>"

text \<open>Nobody scans the QR code: every wait times out.\<close>

definition env_timeout :: env where
  "env_timeout = env_ok\<lparr>run_auth := (\<lambda>h a. Inl TimeoutError)\<rparr>"

text \<open>The first wait times out and the second one returns the user.\<close>

definition env_late_scan :: env where
  "env_late_scan =
     env_ok\<lparr>run_auth := (\<lambda>h a. if Wait \<in> set h then Inr user42 else Inl TimeoutError)\<rparr>"

text \<open>The account has two-factor authentication; the password is then accepted.\<close>

definition env_two_factor :: env where
  "env_two_factor =
     env_ok\<lparr>run_auth := (\<lambda>h a. case a of Wait \<Rightarrow> Inl SessionPasswordNeededError
                                      | _ \<Rightarrow> Inr user42)\<rparr>"

text \<open>The provider answers the code request with a flood wait of one hour.\<close>

definition env_flood_wait :: env where
  "env_flood_wait =
     env_ok\<lparr>run_unit := (\<lambda>h a. case a of SignIn who i \<Rightarrow> Inl (FloodWaitError 3600)
                                     | _ \<Rightarrow> Inr ())\<rparr>"

text \<open>
  As \<open>env_two_factor\<close>, with the Telegram account of the example already bound: to the
  admin, or to Alice. Logging out works.
\<close>

definition env_bound_to_admin :: env where
  "env_bound_to_admin =
     env_two_factor
       \<lparr>run_lookup := (\<lambda>h a. case a of GetByMxid m \<Rightarrow> Inr (Some m)
                                  | _ \<Rightarrow> Inr (Some ''@admin:example.org'')),
        run_bool := (\<lambda>h a. case a of LogOut who \<Rightarrow> Inr True | _ \<Rightarrow> Inr False)\<rparr>"

definition env_bound_to_alice :: env where
  "env_bound_to_alice =
     env_two_factor
       \<lparr>run_lookup := (\<lambda>h a. case a of GetByMxid m \<Rightarrow> Inr (Some m)
                                  | _ \<Rightarrow> Inr (Some ''@alice:example.org'')),
        run_bool := (\<lambda>h a. case a of LogOut who \<Rightarrow> Inr True | _ \<Rightarrow> Inr False)\<rparr>"

section \<open>Facts about the combinators and the handlers\<close>

lemmas prog_defs = ret_def raise_def seq_def try_except_def call_def perform_def
  set_command_status_def get_command_status_def reply_def

text \<open>\<open>return await evt.reply(t)\<close> in a handler that returns \<open>EventID | None\<close>.\<close>

lemma return_reply:
  "seq (reply env t) (\<lambda>r. ret (Some r)) s =
     (map_sum (\<lambda>e. e) Some (run_str env (trace s) (Reply t)),
      s\<lparr>trace := trace s @ [Reply t]\<rparr>)"
  by (simp add: prog_defs split: sum.splits)

lemma log_and_reply:
  "seq (perform a) (\<lambda>_. seq (reply env t) (\<lambda>r. ret (Some r))) s =
     (map_sum (\<lambda>e. e) Some (run_str env (trace s @ [a]) (Reply t)),
      s\<lparr>trace := trace s @ [a, Reply t]\<rparr>)"
  by (simp add: prog_defs split: sum.splits)

text \<open>The \<open>except\<close> clauses of \<open>enter_password\<close> only reply: the slot is not written.\<close>

lemma enter_password_except_frame:
  "command_status (snd (enter_password_except env e s)) = command_status s"
  "prefix (trace s) (trace (snd (enter_password_except env e s)))"
  by (cases e; simp add: enter_password_except_def return_reply log_and_reply)+

text \<open>
  \<open>_sign_in\<close> when the provider rejects the code or the password: one reply, and nothing
  else happens.
\<close>

lemma sign_in_rejected:
  assumes "la = (case login_as0 of None \<Rightarrow> sender evt | Some a \<Rightarrow> a)"
    and "run_unit env (trace s) (EnsureStarted la) = Inr ()"
    and "run_auth env (trace s @ [EnsureStarted la]) (SignIn la info) = Inl e"
    and "e = PhoneCodeExpiredError
           \<and> t = ''Phone code expired. Try again with `$cmdprefix+sp login`.''
       \<or> e = PhoneCodeInvalidError \<and> t = ''Invalid phone code.''
       \<or> e = PasswordHashInvalidError \<and> t = ''Incorrect password.''"
  shows "sign_in env evt login_as0 info s =
     (map_sum (\<lambda>e. e) Some
        (run_str env (trace s @ [EnsureStarted la, SignIn la info]) (Reply t)),
      s\<lparr>trace := trace s @ [EnsureStarted la, SignIn la info, Reply t]\<rparr>)"
proof -
  have body:
    "seq (call (run_unit env) (EnsureStarted la)) (\<lambda>_.
     seq (call (run_auth env) (SignIn la info)) (\<lambda>user.
     seq (finish_sign_in env evt user None) (\<lambda>_. ret None))) s
       = (Inl e, s\<lparr>trace := trace s @ [EnsureStarted la, SignIn la info]\<rparr>)"
    using assms(2,3) by (simp add: seq_def call_def)
  have "sign_in env evt login_as0 info s =
     sign_in_except env e (s\<lparr>trace := trace s @ [EnsureStarted la, SignIn la info]\<rparr>)"
    unfolding sign_in_def Let_def assms(1)[symmetric] try_except_def body by simp
  also have "\<dots> =
     (map_sum (\<lambda>e. e) Some
        (run_str env (trace s @ [EnsureStarted la, SignIn la info]) (Reply t)),
      s\<lparr>trace := trace s @ [EnsureStarted la, SignIn la info, Reply t]\<rparr>)"
    using assms(4) by (auto simp: sign_in_except_def return_reply)
  finally show ?thesis .
qed

section \<open>Facts about \<open>str.find\<close>\<close>

lemma str_find_ge: "- 1 \<le> str_find s c"
  by (induction s) (auto simp: Let_def)

lemma str_find_neg: "str_find s c < 0 \<longleftrightarrow> c \<notin> set s"
  using str_find_ge[of _ c] by (induction s) (auto simp: Let_def)

lemma str_find_first:
  "c \<in> set s \<Longrightarrow>
     \<exists>i. str_find s c = int i \<and> i < length s \<and> s ! i = c \<and> c \<notin> set (take i s)"
proof (induction s)
  case Nil
  then show ?case by simp
next
  case (Cons x xs)
  show ?case
  proof (cases "x = c")
    case True
    then have "str_find (x # xs) c = int 0 \<and> 0 < length (x # xs) \<and> (x # xs) ! 0 = c
                 \<and> c \<notin> set (take 0 (x # xs))"
      by simp
    then show ?thesis by blast
  next
    case False
    with Cons.prems have "c \<in> set xs" by simp
    with Cons.IH obtain i where
      i: "str_find xs c = int i" "i < length xs" "xs ! i = c" "c \<notin> set (take i xs)"
      by blast
    have "str_find (x # xs) c = int (Suc i) \<and> Suc i < length (x # xs) \<and> (x # xs) ! Suc i = c
            \<and> c \<notin> set (take (Suc i) (x # xs))"
      using i False by (simp add: Let_def)
    then show ?thesis by blast
  qed
qed

lemma str_find_pos_iff:
  "0 < str_find s c \<longleftrightarrow> (\<exists>i. 1 \<le> i \<and> i < length s \<and> s ! i = c \<and> c \<notin> set (take i s))"
proof
  assume pos: "0 < str_find s c"
  then have "c \<in> set s" using str_find_neg[of s c] by auto
  then obtain i where
    i: "str_find s c = int i" "i < length s" "s ! i = c" "c \<notin> set (take i s)"
    using str_find_first by blast
  with pos have "1 \<le> i" by simp
  with i show "\<exists>i. 1 \<le> i \<and> i < length s \<and> s ! i = c \<and> c \<notin> set (take i s)" by blast
next
  assume "\<exists>i. 1 \<le> i \<and> i < length s \<and> s ! i = c \<and> c \<notin> set (take i s)"
  then obtain i where i: "1 \<le> i" "i < length s" "s ! i = c" "c \<notin> set (take i s)" by blast
  then obtain x xs where s: "s = x # xs" by (cases s) auto
  have "x \<in> set (take i s)" using i(1) s by (cases i) auto
  then have "x \<noteq> c" using i(4) by auto
  moreover have "c \<in> set xs" using i s by (cases i) auto
  ultimately show "0 < str_find s c"
    using str_find_neg[of xs c] str_find_ge[of xs c] s by (simp add: Let_def)
qed

lemma str_find_not_pos_iff:
  "\<not> 0 < str_find s c \<longleftrightarrow> (c \<notin> set s \<or> (s \<noteq> [] \<and> s ! 0 = c))"
proof (cases s)
  case Nil
  then show ?thesis by simp
next
  case (Cons x xs)
  then show ?thesis
    using str_find_neg[of xs c] str_find_ge[of xs c] by (auto simp: Let_def)
qed

section \<open>Rules for \<open>only_adds\<close>\<close>

lemma only_addsD:
  "only_adds P m \<Longrightarrow> \<exists>new. trace (snd (m s)) = trace s @ new \<and> list_all P new"
  by (simp add: only_adds_def)

lemma only_adds_ret: "only_adds P (ret x)"
  by (simp add: only_adds_def ret_def)

lemma only_adds_raise: "only_adds P (raise e)"
  by (simp add: only_adds_def raise_def)

lemma only_adds_call: "P a \<Longrightarrow> only_adds P (call run a)"
  by (simp add: only_adds_def call_def)

lemma only_adds_reply: "P (Reply t) \<Longrightarrow> only_adds P (reply env t)"
  by (simp add: reply_def only_adds_call)

lemma only_adds_perform: "P a \<Longrightarrow> only_adds P (perform a)"
  by (simp add: only_adds_def perform_def)

lemma only_adds_set_status: "only_adds P (set_command_status v)"
  by (simp add: only_adds_def set_command_status_def)

lemma only_adds_get_status: "only_adds P get_command_status"
  by (simp add: only_adds_def get_command_status_def)

lemma only_adds_seq:
  assumes "only_adds P m" and "\<And>x. only_adds P (f x)"
  shows "only_adds P (seq m f)"
  unfolding only_adds_def
proof
  fix s
  obtain r s1 where ms: "m s = (r, s1)" by (cases "m s")
  from only_addsD[OF assms(1), of s] ms obtain n1 where
    n1: "trace s1 = trace s @ n1" "list_all P n1" by auto
  show "\<exists>new. trace (snd (seq m f s)) = trace s @ new \<and> list_all P new"
  proof (cases r)
    case (Inl e)
    then show ?thesis using ms n1 by (simp add: seq_def)
  next
    case (Inr x)
    from only_addsD[OF assms(2), of x s1] obtain n2 where
      n2: "trace (snd (f x s1)) = trace s1 @ n2" "list_all P n2" by auto
    have "trace (snd (seq m f s)) = trace s @ (n1 @ n2)"
      using Inr ms n1 n2 by (simp add: seq_def)
    moreover have "list_all P (n1 @ n2)" using n1 n2 by simp
    ultimately show ?thesis by blast
  qed
qed

lemma only_adds_try_except:
  assumes "only_adds P m" and "\<And>e. only_adds P (h e)"
  shows "only_adds P (try_except m h)"
  unfolding only_adds_def
proof
  fix s
  obtain r s1 where ms: "m s = (r, s1)" by (cases "m s")
  from only_addsD[OF assms(1), of s] ms obtain n1 where
    n1: "trace s1 = trace s @ n1" "list_all P n1" by auto
  show "\<exists>new. trace (snd (try_except m h s)) = trace s @ new \<and> list_all P new"
  proof (cases r)
    case (Inr x)
    then show ?thesis using ms n1 by (simp add: try_except_def)
  next
    case (Inl e)
    from only_addsD[OF assms(2), of e s1] obtain n2 where
      n2: "trace (snd (h e s1)) = trace s1 @ n2" "list_all P n2" by auto
    have "trace (snd (try_except m h s)) = trace s @ (n1 @ n2)"
      using Inl ms n1 n2 by (simp add: try_except_def)
    moreover have "list_all P (n1 @ n2)" using n1 n2 by simp
    ultimately show ?thesis by blast
  qed
qed

lemmas only_adds_intros = only_adds_ret only_adds_raise only_adds_call only_adds_reply
  only_adds_perform only_adds_set_status only_adds_get_status only_adds_seq only_adds_try_except

lemma only_adds_finish_sign_in:
  assumes "\<And>t. P (Reply t)" "\<And>i. P (GetByTgid i)" "\<And>a. P (LogOut a)" "\<And>t. P (CreateTask t)"
  shows "only_adds P (finish_sign_in env evt user login_as0)"
  unfolding finish_sign_in_def Let_def
  by (intro only_adds_intros assms | simp split: option.split | intro conjI impI allI)+


lemma only_adds_sign_in_except:
  assumes "\<And>t. P (Reply t)"
  shows "only_adds P (sign_in_except env e)"
  unfolding sign_in_except_def
  by (cases e; simp; intro only_adds_intros assms)

lemma only_adds_sign_in:
  assumes "\<And>a. (\<forall>who i. a \<noteq> SignIn who i) \<Longrightarrow> P a"
    and "\<And>who. P (SignIn who info)"
  shows "only_adds P (sign_in env evt login_as0 info)"
  unfolding sign_in_def Let_def
  by (intro only_adds_intros only_adds_finish_sign_in only_adds_sign_in_except assms; simp)

lemma only_adds_enter_password_except:
  assumes "\<And>t. P (Reply t)" "\<And>t. P (LogException t)"
  shows "only_adds P (enter_password_except env e)"
  unfolding enter_password_except_def
  by (cases e; simp; intro only_adds_intros assms)

lemma only_adds_enter_password:
  assumes "\<And>a. (\<forall>who i. a \<noteq> SignIn who i) \<Longrightarrow> P a"
    and "\<And>who. P (SignIn who (Password (str_join '' '' (args evt))))"
  shows "only_adds P (enter_password env evt)"
proof -
  have "only_adds P (case cs of None \<Rightarrow> raise AttributeError
          | Some st \<Rightarrow> sign_in env evt (get_login_as st) (Password (str_join '' '' (args evt))))"
    for cs
    by (cases cs) (simp_all add: only_adds_raise only_adds_sign_in assms)
  then show ?thesis
    unfolding enter_password_def
    by (auto intro!: only_adds_intros only_adds_enter_password_except assms)
qed

lemma only_adds_request_code_except:
  assumes "\<And>t. P (Reply t)" "\<And>t. P (LogException t)"
  shows "only_adds P (request_code_except env e)"
proof (cases e)
  case (FloodWaitError seconds)
  then show ?thesis
    by (cases "fmt_duration env seconds")
       (simp_all add: request_code_except_def only_adds_raise only_adds_reply assms)
qed (simp_all add: request_code_except_def, (intro only_adds_intros assms)+)

lemma seq_call_ok:
  "run (trace s) a = Inr v \<Longrightarrow> seq (call run a) f s = f v (s\<lparr>trace := trace s @ [a]\<rparr>)"
  by (simp add: seq_def call_def)

lemma prefix_only_adds:
  "only_adds P m \<Longrightarrow> prefix (trace s) (trace (snd (m s)))"
  using only_addsD[of P m s] by auto

lemma prefix_seq:
  assumes "prefix xs (trace (snd (m s)))" and "\<And>x. only_adds P (f x)"
  shows "prefix xs (trace (snd (seq m f s)))"
proof (cases "m s")
  case (Pair r s1)
  show ?thesis
  proof (cases r)
    case (Inl e)
    then show ?thesis using Pair assms(1) by (simp add: seq_def)
  next
    case (Inr x)
    have "prefix (trace s1) (trace (snd (f x s1)))"
      using assms(2) by (rule prefix_only_adds)
    then show ?thesis using Inr Pair assms(1) by (auto simp: seq_def)
  qed
qed

lemma prefix_try_except:
  assumes "prefix xs (trace (snd (m s)))" and "\<And>e. only_adds P (h e)"
  shows "prefix xs (trace (snd (try_except m h s)))"
proof (cases "m s")
  case (Pair r s1)
  show ?thesis
  proof (cases r)
    case (Inr x)
    then show ?thesis using Pair assms(1) by (simp add: try_except_def)
  next
    case (Inl e)
    have "prefix (trace s1) (trace (snd (h e s1)))"
      using assms(2) by (rule prefix_only_adds)
    then show ?thesis using Inl Pair assms(1) by (auto simp: try_except_def)
  qed
qed

lemma prefix_seq_call:
  assumes "\<And>x. only_adds P (f x)"
  shows "prefix (trace s @ [a]) (trace (snd (seq (call run a) f s)))"
  by (rule prefix_seq[OF _ assms]) (simp add: call_def)

text \<open>\<open>_sign_in\<close> once the session is started: the provider is asked next.\<close>

lemma sign_in_asks_provider:
  assumes "la = (case login_as0 of None \<Rightarrow> sender evt | Some a \<Rightarrow> a)"
    and "run_unit env (trace s) (EnsureStarted la) = Inr ()"
  shows "prefix (trace s @ [EnsureStarted la, SignIn la info])
           (trace (snd (sign_in env evt login_as0 info s)))"
proof -
  let ?s1 = "s\<lparr>trace := trace s @ [EnsureStarted la]\<rparr>"
  let ?k = "\<lambda>user. seq (finish_sign_in env evt user None) (\<lambda>_. ret None)"
  have k: "only_adds (\<lambda>_. True) (?k user)" for user
    by (intro only_adds_intros only_adds_finish_sign_in) simp_all
  have "prefix (trace ?s1 @ [SignIn la info])
          (trace (snd (seq (call (run_auth env) (SignIn la info)) ?k ?s1)))"
    using k by (rule prefix_seq_call)
  then have "prefix (trace s @ [EnsureStarted la, SignIn la info])
          (trace (snd (seq (call (run_unit env) (EnsureStarted la))
             (\<lambda>_. seq (call (run_auth env) (SignIn la info)) ?k) s)))"
    using assms(2) by (simp add: seq_call_ok)
  then show ?thesis
    unfolding sign_in_def Let_def assms(1)[symmetric]
    by (rule prefix_try_except[where P="\<lambda>_. True"]) (simp add: only_adds_sign_in_except)
qed

section \<open>Which provider call a command makes\<close>

lemma trace_request_code:
  "trace (snd (request_code env evt p nxt s)) =
     (case request_code_body env evt p s of
        (Inl e, ok, s1) \<Rightarrow> trace (snd (request_code_except env e s1))
      | (Inr v, ok, s1) \<Rightarrow> trace s1)"
  by (simp add: request_code_def split: prod.splits sum.splits)

lemma request_code_asks_provider:
  assumes "run_unit env (trace s) (EnsureStarted (sender evt)) = Inr ()"
  shows "prefix (trace s @ [EnsureStarted (sender evt), SignIn (sender evt) (PhoneNumber p)])
           (trace (snd (request_code env evt p nxt s)))"
proof -
  obtain r ok s1 where b: "request_code_body env evt p s = (r, ok, s1)"
    by (cases "request_code_body env evt p s") auto
  have s1: "prefix (trace s @ [EnsureStarted (sender evt), SignIn (sender evt) (PhoneNumber p)])
              (trace s1)"
    using b assms
    by (auto simp: request_code_body_def call_def reply_def split: sum.splits)
  show ?thesis
  proof (cases r)
    case (Inr v)
    then show ?thesis using b s1 by (simp add: trace_request_code)
  next
    case (Inl e)
    have "prefix (trace s1) (trace (snd (request_code_except env e s1)))"
      by (rule prefix_only_adds[where P="\<lambda>_. True"]) (simp add: only_adds_request_code_except)
    then show ?thesis using Inl b s1 by (auto simp: trace_request_code)
  qed
qed

lemma enter_phone_or_token_asks_provider:
  assumes "args evt = a # rest"
    and "config_get evt ''bridge.allow_matrix_login'' True"
    and "run_unit env (trace s) (EnsureStarted (sender evt)) = Inr ()"
  shows "prefix
           (trace s @
            [EnsureStarted (sender evt),
             SignIn (sender evt)
               (if 0 < str_find a CHR '':'' then BotToken a else PhoneNumber a)])
           (trace (snd (enter_phone_or_token env evt s)))"
proof (cases "0 < str_find a CHR '':''")
  case True
  have "prefix (trace s @ [EnsureStarted (sender evt), SignIn (sender evt) (BotToken a)])
          (trace (snd (sign_in env evt None (BotToken a) s)))"
    using assms(3) by (intro sign_in_asks_provider) simp_all
  then have "prefix (trace s @ [EnsureStarted (sender evt), SignIn (sender evt) (BotToken a)])
          (trace (snd (try_except
             (seq (sign_in env evt None (BotToken a)) (\<lambda>_. ret None))
             (\<lambda>e. seq (perform (LogException ''Error sending auth token'')) (\<lambda>_.
              seq (reply env (''Unhandled exception while sending auth token. '' @
                              ''Check console for more details.'')) (\<lambda>r. ret (Some r)))) s)))"
    by (intro prefix_try_except[where P="\<lambda>_. True"] prefix_seq[where P="\<lambda>_. True"]
          only_adds_intros) simp_all
  then show ?thesis
    using True assms(1,2) by (simp add: enter_phone_or_token_def)
next
  case False
  have "prefix (trace s @ [EnsureStarted (sender evt), SignIn (sender evt) (PhoneNumber a)])
          (trace (snd (seq (request_code env evt a
             \<lparr>st_next = EnterCode, st_login_as = None, st_action = ''Login''\<rparr>)
             (\<lambda>_. ret None) s)))"
    using assms(3)
    by (intro prefix_seq[where P="\<lambda>_. True"] request_code_asks_provider only_adds_intros)
  then show ?thesis
    using False assms(1,2) by (simp add: enter_phone_or_token_def)
qed

lemma str_join_strict_prefix:
  "strict_prefix x (str_join '' '' (x # y # ys))"
  by (simp add: strict_prefix_def prefix_def)

lemma enter_password_asks_provider:
  assumes "args evt \<noteq> []"
    and "config_get evt ''bridge.allow_matrix_login'' True"
    and "command_status s = Some st"
    and "la = (case get_login_as st of None \<Rightarrow> sender evt | Some a \<Rightarrow> a)"
    and "run_unit env (trace s) EvtRedact = Inr ()"
    and "run_unit env (trace s @ [EvtRedact]) (EnsureStarted la) = Inr ()"
  shows "prefix (trace s @ [EvtRedact, EnsureStarted la,
                   SignIn la (Password (str_join '' '' (args evt)))])
           (trace (snd (enter_password env evt s)))"
proof -
  let ?pw = "str_join '' '' (args evt)"
  let ?s1 = "s\<lparr>trace := trace s @ [EvtRedact]\<rparr>"
  have "prefix (trace ?s1 @ [EnsureStarted la, SignIn la (Password ?pw)])
          (trace (snd (sign_in env evt (get_login_as st) (Password ?pw) ?s1)))"
    using assms(4,6) by (intro sign_in_asks_provider) simp_all
  then have "prefix (trace ?s1 @ [EnsureStarted la, SignIn la (Password ?pw)])
          (trace (snd (seq (sign_in env evt (get_login_as st) (Password ?pw)) (\<lambda>_. ret None) ?s1)))"
    by (rule prefix_seq[where P="\<lambda>_. True"]) (rule only_adds_ret)
  then have "prefix (trace ?s1 @ [EnsureStarted la, SignIn la (Password ?pw)])
          (trace (snd (seq get_command_status (\<lambda>cs.
             seq (case cs of None \<Rightarrow> raise AttributeError
                  | Some st \<Rightarrow> sign_in env evt (get_login_as st) (Password ?pw))
               (\<lambda>_. ret None)) ?s1)))"
    using assms(3) by (simp add: seq_def[of get_command_status] get_command_status_def)
  then have "prefix (trace ?s1 @ [EnsureStarted la, SignIn la (Password ?pw)])
          (trace (snd (try_except (seq get_command_status (\<lambda>cs.
             seq (case cs of None \<Rightarrow> raise AttributeError
                  | Some st \<Rightarrow> sign_in env evt (get_login_as st) (Password ?pw))
               (\<lambda>_. ret None))) (enter_password_except env) ?s1)))"
    by (rule prefix_try_except[where P="\<lambda>_. True"])
       (simp add: only_adds_enter_password_except)
  then show ?thesis
    using assms(1,2,5) by (simp add: enter_password_def seq_call_ok)
qed

lemma request_code_body_cases:
  "request_code_body env evt p s =
     (case run_unit env (trace s) (EnsureStarted (sender evt)) of
        Inl e \<Rightarrow> (Inl e, False, s\<lparr>trace := trace s @ [EnsureStarted (sender evt)]\<rparr>)
      | Inr _ \<Rightarrow>
         (case run_unit env (trace s @ [EnsureStarted (sender evt)])
                 (SignIn (sender evt) (PhoneNumber p)) of
            Inl e \<Rightarrow> (Inl e, False,
                       s\<lparr>trace := trace s @ [EnsureStarted (sender evt),
                                               SignIn (sender evt) (PhoneNumber p)]\<rparr>)
          | Inr _ \<Rightarrow>
              (run_str env (trace s @ [EnsureStarted (sender evt),
                                        SignIn (sender evt) (PhoneNumber p)])
                 (Reply (''Login code sent to '' @ p @ ''. Please send the code here.'')),
               True,
               s\<lparr>trace := trace s @ [EnsureStarted (sender evt),
                   SignIn (sender evt) (PhoneNumber p),
                   Reply (''Login code sent to '' @ p @ ''. Please send the code here.'')]\<rparr>)))"
  by (simp add: request_code_body_def call_def reply_def split: sum.splits)

lemma status_request_code:
  "command_status (snd (request_code env evt p nxt s)) =
     (if fst (snd (request_code_body env evt p s)) then Some nxt else None)"
  by (simp add: request_code_def split: prod.splits sum.splits)

section \<open>The QR loop when every wait times out\<close>

lemma redact_qr_swallows:
  "redact_qr env evt qr s =
     (Inr (), s\<lparr>trace := trace s @ [IntentRedact (room_id evt) qr ''QR code scanned'']\<rparr>)"
  by (simp add: redact_qr_def prog_defs split: sum.splits)

lemma upload_qr_published:
  assumes "run_str env = (\<lambda>h a. Inr (ans h a))"
    and "\<forall>h u m. ans h (SendMessage (room_id evt) (MediaMessage u m (ReplyTo (event_id evt)))) = q"
    and "q \<noteq> []"
    and "qr = None \<or> qr = Some q"
  shows "\<exists>m. upload_qr env evt url qr s =
           (Inr (Some q), s\<lparr>trace := trace s @ [UploadMedia url, SendMessage (room_id evt) m]\<rparr>)"
  using assms(2,3,4) by (auto simp: upload_qr_def assms(1) truthy_def prog_defs)

lemma qr_loop_timeouts:
  assumes "run_str env = (\<lambda>h a. Inr (ans h a))"
    and "\<forall>h u m. ans h (SendMessage (room_id evt) (MediaMessage u m (ReplyTo (event_id evt)))) = q"
    and "q \<noteq> []"
    and "\<forall>h. run_auth env h Wait = Inl TimeoutError"
    and "qr = None \<or> qr = Some q"
  shows "\<exists>new. qr_loop env evt la n qr s =
            (Inr (Normal, if n = 0 then qr else Some q), s\<lparr>trace := trace s @ new\<rparr>)
          \<and> count_list new Wait = n \<and> count_list new Recreate = n"
  using assms(5)
proof (induction n arbitrary: qr s)
  case 0
  have "qr_loop env evt la 0 qr s = (Inr (Normal, if (0::nat) = 0 then qr else Some q), s\<lparr>trace := trace s @ []\<rparr>)
          \<and> count_list [] Wait = 0 \<and> count_list [] Recreate = 0"
    by (simp add: ret_def)
  then show ?case by blast
next
  case (Suc n)
  let ?url = "ans (trace s) Recreate"
  let ?s1 = "s\<lparr>trace := trace s @ [Recreate]\<rparr>"
  obtain m where up: "upload_qr env evt ?url qr ?s1 =
      (Inr (Some q), ?s1\<lparr>trace := trace ?s1 @ [UploadMedia ?url, SendMessage (room_id evt) m]\<rparr>)"
    using upload_qr_published[OF assms(1,2,3) Suc.prems] by blast
  let ?pre = "[Recreate, UploadMedia ?url, SendMessage (room_id evt) m, Wait,
               IntentRedact (room_id evt) (Some q) ''QR code scanned'']"
  let ?s2 = "s\<lparr>trace := trace s @ ?pre\<rparr>"
  have step: "qr_loop env evt la (Suc n) qr s = qr_loop env evt la n (Some q) ?s2"
    using assms(4)
    by (simp add: seq_def[of "call _ _"] call_def assms(1) seq_def[of "upload_qr _ _ _ _"] up
          try_except_def wait_except_def ret_def seq_def[of "\<lambda>s. _ s"] 
          seq_def[of "redact_qr _ _ _"] redact_qr_swallows)
  obtain new where new: "qr_loop env evt la n (Some q) ?s2 =
            (Inr (Normal, if n = 0 then Some q else Some q), ?s2\<lparr>trace := trace ?s2 @ new\<rparr>)"
        "count_list new Wait = n" "count_list new Recreate = n"
    using Suc.IH[of "Some q" ?s2] by auto
  have "qr_loop env evt la (Suc n) qr s =
            (Inr (Normal, if Suc n = 0 then qr else Some q), s\<lparr>trace := trace s @ (?pre @ new)\<rparr>)
          \<and> count_list (?pre @ new) Wait = Suc n \<and> count_list (?pre @ new) Recreate = Suc n"
    using step new by simp
  then show ?case by blast
qed

section \<open>Rejected passwords\<close>

text \<open>One rejected password, and then any number of them in a row.\<close>

lemma enter_password_rejected:
  assumes "args evt \<noteq> []" "config_get evt ''bridge.allow_matrix_login'' True"
   "command_status s = Some st"
   "la = (case get_login_as st of None \<Rightarrow> sender evt | Some a \<Rightarrow> a)"
   "pw = str_join '' '' (args evt)"
   "run_unit env (trace s) EvtRedact = Inr ()"
   "run_unit env (trace s @ [EvtRedact]) (EnsureStarted la) = Inr ()"
   "run_auth env (trace s @ [EvtRedact, EnsureStarted la]) (SignIn la (Password pw))
      = Inl PasswordHashInvalidError"
  shows "prefix (trace s @ [EvtRedact, EnsureStarted la, SignIn la (Password pw),
                           Reply ''Incorrect password.''])
           (trace (snd (enter_password env evt s)))
     \<and> command_status (snd (enter_password env evt s)) = Some st"
proof -
  let ?s1 = "s\<lparr>trace := trace s @ [EvtRedact]\<rparr>"
  let ?s2 = "s\<lparr>trace := trace s @ [EvtRedact, EnsureStarted la, SignIn la (Password pw),
                                     Reply ''Incorrect password.'']\<rparr>"
  let ?r = "run_str env (trace s @ [EvtRedact, EnsureStarted la, SignIn la (Password pw)])
              (Reply ''Incorrect password.'')"
  have si: "sign_in env evt (get_login_as st) (Password pw) ?s1
              = (map_sum (\<lambda>e. e) Some ?r, ?s2)"
    using sign_in_rejected[where la=la and ?login_as0.0="get_login_as st" and evt=evt
        and env=env and s="?s1" and info="Password pw" and e=PasswordHashInvalidError
        and t="''Incorrect password.''"]
      assms(4,7,8) by simp
  have ep: "enter_password env evt s =
     (case ?r of Inl e \<Rightarrow> enter_password_except env e ?s2 | Inr x \<Rightarrow> (Inr None, ?s2))"
    using assms(1,2,3,6)
    by (simp add: enter_password_def assms(5)[symmetric] seq_def[of "call _ _"] call_def
         try_except_def seq_def[of get_command_status] get_command_status_def
         seq_def[of "sign_in env evt (get_login_as st) (Password pw)"] si ret_def
         split: sum.splits)
  show ?thesis
  proof (cases ?r)
    case (Inl e)
    then show ?thesis
      using enter_password_except_frame[where env=env and e=e and s="?s2"] assms(3)
      by (simp add: ep)
  next
    case (Inr x)
    then show ?thesis using assms(3) by (simp add: ep)
  qed
qed

lemma enter_password_rejected_again:
  assumes "\<forall>h. run_unit env h EvtRedact = Inr ()"
    and "\<forall>h a. run_unit env h (EnsureStarted a) = Inr ()"
    and "\<forall>h a p. run_auth env h (SignIn a (Password p)) = Inl PasswordHashInvalidError"
    and "\<forall>e \<in> set evts. args e \<noteq> [] \<and> config_get e ''bridge.allow_matrix_login'' True"
    and "command_status s = Some st"
  shows "command_status (fold (\<lambda>e s. snd (enter_password env e s)) evts s) = Some st
     \<and> (\<exists>new. trace (fold (\<lambda>e s. snd (enter_password env e s)) evts s) = trace s @ new
            \<and> length evts \<le> count_list new (Reply ''Incorrect password.''))"
  using assms(4,5)
proof (induction evts arbitrary: s)
  case Nil
  then show ?case by simp
next
  case (Cons e es)
  define la where "la = (case get_login_as st of None \<Rightarrow> sender e | Some a \<Rightarrow> a)"
  define pw where "pw = str_join '' '' (args e)"
  let ?s1 = "snd (enter_password env e s)"
  let ?four = "[EvtRedact, EnsureStarted la, SignIn la (Password pw),
                Reply ''Incorrect password.'']"
  have one: "prefix (trace s @ ?four) (trace ?s1) \<and> command_status ?s1 = Some st"
    using Cons.prems assms(1,2,3) la_def pw_def by (intro enter_password_rejected) simp_all
  then obtain r where r: "trace ?s1 = trace s @ ?four @ r"
    by (auto simp: prefix_def)
  have "\<forall>e \<in> set es. args e \<noteq> [] \<and> config_get e ''bridge.allow_matrix_login'' True"
    using Cons.prems(1) by simp
  with Cons.IH[of ?s1] one obtain new where
    new: "command_status (fold (\<lambda>e s. snd (enter_password env e s)) es ?s1) = Some st"
      "trace (fold (\<lambda>e s. snd (enter_password env e s)) es ?s1) = trace ?s1 @ new"
      "length es \<le> count_list new (Reply ''Incorrect password.'')"
    by blast
  have "trace (fold (\<lambda>e s. snd (enter_password env e s)) (e # es) s)
          = trace s @ (?four @ r @ new)"
    using new(2) r by simp
  moreover have "length (e # es) \<le> count_list (?four @ r @ new) (Reply ''Incorrect password.'')"
    using new(3) by simp
  ultimately have "\<exists>new. trace (fold (\<lambda>e s. snd (enter_password env e s)) (e # es) s)
                      = trace s @ new
      \<and> length (e # es) \<le> count_list new (Reply ''Incorrect password.'')"
    by blast
  then show ?case using new(1) by simp
qed

section \<open>The reply of \<open>_request_code\<close> to each failure\<close>

lemma request_code_failed:
  "request_code_body env evt p s = (Inl e, False, s1) \<Longrightarrow>
   request_code env evt p nxt s =
     (case request_code_except env e s1 of (r, s2) \<Rightarrow> (r, s2\<lparr>command_status := None\<rparr>))"
  by (simp add: request_code_def)

lemma request_code_except_answer:
  assumes "\<forall>n. e = FloodWaitError n \<longrightarrow> fmt_duration env n = Inr d"
  shows "case (case e of
            PhoneNumberAppSignupForbiddenError \<Rightarrow>
              ([], ''Your phone number does not allow 3rd party apps to sign in.'')
          | PhoneNumberFloodError \<Rightarrow>
              ([], ''Your phone number has been temporarily blocked for flooding. '' @
                   ''The ban is usually applied for around a day.'')
          | FloodWaitError n \<Rightarrow>
              ([], ''Your phone number has been temporarily blocked for flooding. '' @
                   ''Please wait for '' @ d @ '' before trying again.'')
          | PhoneNumberBannedError \<Rightarrow>
              ([], ''Your phone number has been banned from Telegram.'')
          | PhoneNumberUnoccupiedError \<Rightarrow>
              ([], ''That phone number has not been registered. '' @
                   ''Please sign up to Telegram using an official mobile client first.'')
          | PhoneNumberInvalidError \<Rightarrow>
              ([], ''That phone number is not valid.'')
          | _ \<Rightarrow>
              ([LogException ''Error requesting phone code''],
               ''Unhandled exception while requesting code. '' @
               ''Check console for more details.'')) of
          (pre, msg) \<Rightarrow>
            request_code_except env e s =
              (run_str env (trace s @ pre) (Reply msg),
               s\<lparr>trace := trace s @ pre @ [Reply msg]\<rparr>)"
  using assms
  by (cases e) (simp_all add: request_code_except_def reply_def call_def perform_def seq_def)

section \<open>\<open>_finish_sign_in\<close> for an identity that is bound to another account\<close>

text \<open>
  What \<open>_finish_sign_in\<close> does for the account \<open>b\<close> it works with, when the user table finds
  the Telegram user bound to another account \<open>a\<close>: it logs \<open>a\<close> out, sends the notice with
  the display name and the Matrix ID of \<open>a\<close>, and only then creates the post-login task for
  \<open>b\<close>; it stops early if the log-out or the notice raises.
\<close>

lemma finish_sign_in_evicts:
  assumes "b = (case login_as0 of None \<Rightarrow> sender evt | Some x \<Rightarrow> x)"
    and "run_lookup env (trace s) (GetByTgid (uid user)) = Inr (Some a)"
    and "a \<noteq> b"
    and "notice = ''['' @ displayname env a @ ''] (https://matrix.to/#/'' @ a
                    @ '') was logged out from the account.''"
  shows "snd (finish_sign_in env evt user login_as0 s) =
     (case run_bool env (trace s @ [GetByTgid (uid user)]) (LogOut a) of
        Inl e \<Rightarrow> s\<lparr>trace := trace s @ [GetByTgid (uid user), LogOut a]\<rparr>
      | Inr _ \<Rightarrow>
         (case run_str env (trace s @ [GetByTgid (uid user), LogOut a]) (Reply notice) of
            Inl e \<Rightarrow> s\<lparr>trace := trace s @ [GetByTgid (uid user), LogOut a, Reply notice]\<rparr>
          | Inr _ \<Rightarrow> s\<lparr>trace := trace s @ [GetByTgid (uid user), LogOut a, Reply notice,
                                CreateTask (PostLogin b user True),
                                Reply (success_msg evt b user)],
                          command_status := None\<rparr>))"
  using assms(2,3)
  by (simp add: finish_sign_in_def assms(1)[symmetric] assms(4) logged_out_notice_def prog_defs
        split: sum.splits)

section \<open>The claims\<close>

lemmas scenario_defs = sent_ok_def user42_def env_ok_def evt_of_def idle_def

text \<open>Everything that has to be unfolded to run \<open>login_qr\<close> and \<open>enter_password\<close>.\<close>

lemmas eval_defs = login_qr_def upload_qr_def wait_except_def redact_qr_def finish_sign_in_def
  sign_in_def sign_in_except_def enter_password_def enter_password_except_def
  logged_out_notice_def success_msg_def handle_of_def truthy_def get_login_as_def
  config_get_def two_factor_msg_def Let_def eval_nat_numeral

subsection \<open>C1: a remote identity that is already bound\<close>

text \<open>
  Claim C1 says that every successful sign-in to a Telegram account that is bound to an
  account A other than the account B being logged in logs A out, sends a notice naming A,
  and only then records the binding for B. \<open>_finish_sign_in\<close> does so for the account it is
  given, and \<open>login_qr\<close> gives it B. \<open>_sign_in\<close> gives it nothing, so after a password sent
  for a QR login that an admin started for Bob (the run of C4) the sender takes the place
  of B. In the first run below the Telegram account is bound to the admin: nobody is
  logged out, no notice is sent, and the post-login task is created for the admin. In the
  second run it is bound to Alice: Alice is logged out and named in the notice, but the
  task is again created for the admin and not for Bob.
\<close>

theorem enter_password_evicts_for_sender:
  "trace (snd (enter_password env_bound_to_admin (evt_of ''@admin:example.org'' [''hunter2''])
        (snd (login_qr env_bound_to_admin
                (evt_of ''@admin:example.org'' [''@bob:example.org'']) idle))))
     = [GetByMxid ''@bob:example.org'', IsLoggedIn ''@bob:example.org'',
        EnsureStarted ''@bob:example.org'',
        Recreate, UploadMedia ''tg://login?token=abc'',
        SendMessage ''!room''
          (MediaMessage ''tg://login?token=abc'' ''mxc://example.org/qr'' (ReplyTo ''$cmd'')),
        Wait, Reply two_factor_msg,
        EvtRedact, EnsureStarted ''@bob:example.org'',
        SignIn ''@bob:example.org'' (Password ''hunter2''),
        GetByTgid 42, CreateTask (PostLogin ''@admin:example.org'' user42 True),
        Reply ''Successfully logged in as @handle42'']
   \<and> trace (snd (enter_password env_bound_to_alice (evt_of ''@admin:example.org'' [''hunter2''])
        (snd (login_qr env_bound_to_alice
                (evt_of ''@admin:example.org'' [''@bob:example.org'']) idle))))
     = [GetByMxid ''@bob:example.org'', IsLoggedIn ''@bob:example.org'',
        EnsureStarted ''@bob:example.org'',
        Recreate, UploadMedia ''tg://login?token=abc'',
        SendMessage ''!room''
          (MediaMessage ''tg://login?token=abc'' ''mxc://example.org/qr'' (ReplyTo ''$cmd'')),
        Wait, Reply two_factor_msg,
        EvtRedact, EnsureStarted ''@bob:example.org'',
        SignIn ''@bob:example.org'' (Password ''hunter2''),
        GetByTgid 42, LogOut ''@alice:example.org'',
        Reply ''[Alice] (https://matrix.to/#/@alice:example.org) was logged out from the account.'',
        CreateTask (PostLogin ''@admin:example.org'' user42 True),
        Reply ''Successfully logged in as @handle42'']"
  by (simp add: scenario_defs env_two_factor_def env_bound_to_admin_def env_bound_to_alice_def
        eval_defs prog_defs)

subsection \<open>C2: a rejected code\<close>

text \<open>
  Claim C2, as amended. When \<open>enter_code\<close> is called with a code, in-Matrix login is allowed,
  the session starts and the provider rejects the code as expired or as invalid, the next
  thing the command does is to reply with the reason for that rejection, and
  \<open>command_status\<close> is left exactly as it was: the handlers of \<open>_sign_in\<close> for these two
  errors do not write the slot, so a slot that holds the \<open>enter_code\<close> step stays
  installed.
\<close>

theorem enter_code_rejected_keeps_slot:
  assumes "args evt = c # rest"
    and "config_get evt ''bridge.allow_matrix_login'' True"
    and "run_unit env (trace s) (EnsureStarted (sender evt)) = Inr ()"
    and "run_auth env (trace s @ [EnsureStarted (sender evt)]) (SignIn (sender evt) (Code c))
           = Inl e"
    and "e = PhoneCodeExpiredError
           \<and> t = ''Phone code expired. Try again with `$cmdprefix+sp login`.''
       \<or> e = PhoneCodeInvalidError \<and> t = ''Invalid phone code.''"
  shows "prefix (trace s @ [EnsureStarted (sender evt), SignIn (sender evt) (Code c), Reply t])
           (trace (snd (enter_code env evt s)))
     \<and> command_status (snd (enter_code env evt s)) = command_status s"
proof -
  let ?r = "run_str env (trace s @ [EnsureStarted (sender evt), SignIn (sender evt) (Code c)])
              (Reply t)"
  have si: "sign_in env evt None (Code c) s =
     (map_sum (\<lambda>e. e) Some ?r,
      s\<lparr>trace := trace s @ [EnsureStarted (sender evt), SignIn (sender evt) (Code c), Reply t]\<rparr>)"
    using assms(3,4,5) by (intro sign_in_rejected) auto
  show ?thesis
    using assms(1,2)
    by (cases ?r)
       (simp_all add: enter_code_def try_except_def seq_def[of "sign_in env evt None (Code c)"]
          si log_and_reply ret_def)
qed

text \<open>The theorem at a concrete input: Alice sends a code that the provider calls invalid.\<close>

theorem enter_code_rejected_keeps_slot_witness:
  "prefix [EnsureStarted ''@alice:example.org'',
           SignIn ''@alice:example.org'' (Code ''12345''), Reply ''Invalid phone code.'']
     (trace (snd (enter_code env_invalid_code (evt_of ''@alice:example.org'' [''12345''])
                    awaiting_code)))
   \<and> command_status (snd (enter_code env_invalid_code (evt_of ''@alice:example.org'' [''12345''])
                             awaiting_code))
       = command_status awaiting_code"
  using enter_code_rejected_keeps_slot[of "evt_of ''@alice:example.org'' [''12345'']"
          "''12345''" "[]" env_invalid_code awaiting_code PhoneCodeInvalidError
          "''Invalid phone code.''"]
  by (simp add: scenario_defs env_invalid_code_def awaiting_code_def config_get_def)

text \<open>
  Claim C2 as it was stated says that the slot is cleared. In the same run the slot still
  holds the \<open>enter_code\<close> step afterwards.
\<close>

theorem enter_code_invalid_code_slot_not_cleared:
  "command_status (snd (enter_code env_invalid_code (evt_of ''@alice:example.org'' [''12345''])
                          awaiting_code))
     = Some \<lparr>st_next = EnterCode, st_login_as = None, st_action = ''Login''\<rparr>
   \<and> command_status (snd (enter_code env_invalid_code (evt_of ''@alice:example.org'' [''12345''])
                          awaiting_code)) \<noteq> None"
  by (simp add: scenario_defs env_invalid_code_def awaiting_code_def config_get_def
        enter_code_def sign_in_def sign_in_except_def
        prog_defs Let_def)

subsection \<open>C3: the QR code is never scanned\<close>

text \<open>
  Claim C3, as amended. Take a call of \<open>login_qr\<close> on a bridge with QR support for a user
  \<open>la\<close> who is not logged in and whose session starts, in which every message is sent, the
  published QR message gets the event ID \<open>q\<close>, and every wait for the scan times out. Then
  the call returns; it has recreated the challenge four times and waited four times; the
  last thing it did was to send an edit of \<open>q\<close> with the text \<open>Login timed out\<close>; and the slot
  is as it was before the call: no step has been installed and none has been removed.
\<close>

theorem login_qr_all_timeouts:
  assumes "qr_supported env"
    and "if length (args evt) > 0 \<and> is_admin env (sender evt)
         then run_lookup env (trace s) (GetByMxid (args evt ! 0)) = Inr (Some la)
         else la = sender evt"
    and "\<forall>h. run_bool env h (IsLoggedIn la) = Inr False"
    and "\<forall>h. run_unit env h (EnsureStarted la) = Inr ()"
    and "run_str env = (\<lambda>h a. Inr (ans h a))"
    and "\<forall>h u m. ans h (SendMessage (room_id evt) (MediaMessage u m (ReplyTo (event_id evt)))) = q"
    and "q \<noteq> []"
    and "\<forall>h. run_auth env h Wait = Inl TimeoutError"
  shows "\<exists>v new. fst (login_qr env evt s) = Inr v
           \<and> trace (snd (login_qr env evt s)) = trace s @ new
           \<and> count_list new Wait = 4 \<and> count_list new Recreate = 4
           \<and> last new = SendMessage (room_id evt)
                              (TextMessage ''Login timed out'' (EditOf (Some q)))
           \<and> command_status (snd (login_qr env evt s)) = command_status s"
proof -
  define pre where "pre = (if length (args evt) > 0 \<and> is_admin env (sender evt)
                           then [GetByMxid (args evt ! 0)] else [])
                          @ [IsLoggedIn la, EnsureStarted la]"
  let ?s1 = "s\<lparr>trace := trace s @ pre\<rparr>"
  let ?fin = "SendMessage (room_id evt) (TextMessage ''Login timed out'' (EditOf (Some q)))"
  obtain new where new:
    "qr_loop env evt la 4 None ?s1 =
       (Inr (Normal, if (4::nat) = 0 then None else Some q), ?s1\<lparr>trace := trace ?s1 @ new\<rparr>)"
    "count_list new Wait = 4" "count_list new Recreate = 4"
    using qr_loop_timeouts[OF assms(5,6,7,8), of None la 4 ?s1] by auto
  have pre_count: "count_list pre Wait = 0" "count_list pre Recreate = 0"
    by (simp_all add: pre_def)
  have run: "login_qr env evt s =
     (Inr (ans (trace s @ pre @ new) ?fin), s\<lparr>trace := trace s @ (pre @ new @ [?fin])\<rparr>)"
  proof -
    define ov where "ov \<longleftrightarrow> length (args evt) > 0 \<and> is_admin env (sender evt)"
    have lq: "login_qr env evt s =
      seq (if ov then call (run_lookup env) (GetByMxid (args evt ! 0))
           else ret (Some (sender evt))) (\<lambda>login_as0.
       seq (case login_as0 of None \<Rightarrow> raise AttributeError | Some a \<Rightarrow> ret a) (\<lambda>login_as.
       seq (call (run_bool env) (IsLoggedIn login_as)) (\<lambda>logged_in.
       if logged_in then
         reply env (''You are already logged in as '' @ human_tg_id env login_as @ ''.'')
       else
         seq (call (run_unit env) (EnsureStarted login_as)) (\<lambda>_.
         seq (qr_loop env evt login_as 4 None) (\<lambda>(fl, qr_event_id).
         case fl of
           Normal \<Rightarrow>
             call (run_str env)
               (SendMessage (room_id evt) (TextMessage ''Login timed out'' (EditOf qr_event_id)))
         | Returned r \<Rightarrow> ret r
         | Broke user \<Rightarrow> finish_sign_in env evt user (Some login_as)))))) s"
      using assms(1) unfolding login_qr_def ov_def by simp
    show ?thesis
    proof (cases ov)
      case True
      then have "run_lookup env (trace s) (GetByMxid (args evt ! 0)) = Inr (Some la)"
        and "pre = [GetByMxid (args evt ! 0), IsLoggedIn la, EnsureStarted la]"
        using assms(2) by (simp_all add: pre_def ov_def)
      then show ?thesis
        using True assms(3,4) new(1)
        by (simp add: lq seq_def[of "call _ _"] seq_def[of "ret _"]
              seq_def[of "qr_loop _ _ _ _ _"] call_def ret_def assms(5))
    next
      case False
      then have "la = sender evt" and "pre = [IsLoggedIn la, EnsureStarted la]"
        using assms(2) by (simp_all add: pre_def ov_def)
      then show ?thesis
        using False assms(3,4) new(1)
        by (simp add: lq seq_def[of "call _ _"] seq_def[of "ret _"]
              seq_def[of "qr_loop _ _ _ _ _"] call_def ret_def assms(5))
    qed
  qed
  have "fst (login_qr env evt s) = Inr (ans (trace s @ pre @ new) ?fin)
           \<and> trace (snd (login_qr env evt s)) = trace s @ (pre @ new @ [?fin])
           \<and> count_list (pre @ new @ [?fin]) Wait = 4
           \<and> count_list (pre @ new @ [?fin]) Recreate = 4
           \<and> last (pre @ new @ [?fin]) = ?fin
           \<and> command_status (snd (login_qr env evt s)) = command_status s"
    using new(2,3) pre_count by (simp add: run)
  then show ?thesis by blast
qed

text \<open>
  The theorem at a concrete input: Alice, who has been sent a login code and not entered
  it yet, asks for a QR code and never scans it.
\<close>

theorem login_qr_all_timeouts_witness:
  "\<exists>v new. fst (login_qr env_timeout (evt_of ''@alice:example.org'' []) awaiting_code) = Inr v
      \<and> trace (snd (login_qr env_timeout (evt_of ''@alice:example.org'' []) awaiting_code))
          = trace awaiting_code @ new
      \<and> count_list new Wait = 4 \<and> count_list new Recreate = 4
      \<and> last new = SendMessage ''!room'' (TextMessage ''Login timed out'' (EditOf (Some ''$sent'')))
      \<and> command_status (snd (login_qr env_timeout (evt_of ''@alice:example.org'' [])
                               awaiting_code))
          = command_status awaiting_code"
  using login_qr_all_timeouts[of env_timeout "evt_of ''@alice:example.org'' []" awaiting_code
          "''@alice:example.org''" "\<lambda>h. sent_ok" "''$sent''"]
  by (simp add: scenario_defs env_timeout_def awaiting_code_def)

text \<open>
  Claim C3 as it was stated says that the attempt ends with no step installed. In the same
  run the \<open>enter_code\<close> step that was installed before is still installed afterwards.
\<close>

theorem login_qr_timeouts_leave_installed_step:
  "command_status (snd (login_qr env_timeout (evt_of ''@alice:example.org'' []) awaiting_code))
     = Some \<lparr>st_next = EnterCode, st_login_as = None, st_action = ''Login''\<rparr>
   \<and> command_status (snd (login_qr env_timeout (evt_of ''@alice:example.org'' []) awaiting_code))
     \<noteq> None"
  by (simp add: scenario_defs env_timeout_def awaiting_code_def eval_defs prog_defs)

subsection \<open>C4: the account that is finalized after a password\<close>

text \<open>
  Claim C4 says that, for a password sent after two-factor authentication was signalled,
  the sign-in and the finalization both use the account recorded in the slot. Here the
  admin starts a QR login for Bob, the provider asks for the password, and \<open>login_qr\<close>
  records Bob in the slot. The admin then sends the password: the session that signs in is
  Bob's, but \<open>_sign_in\<close> calls \<open>_finish_sign_in\<close> without \<open>login_as\<close>, so the post-login task
  is created for the admin and the success message is the one for a login of the
  sender's own account.
\<close>

theorem enter_password_finalizes_sender:
  "command_status (snd (login_qr env_two_factor
                          (evt_of ''@admin:example.org'' [''@bob:example.org'']) idle))
     = Some \<lparr>st_next = EnterPassword, st_login_as = Some (Some ''@bob:example.org''),
              st_action = ''Login (password entry)''\<rparr>
   \<and> trace (snd (enter_password env_two_factor (evt_of ''@admin:example.org'' [''hunter2''])
        (snd (login_qr env_two_factor
                (evt_of ''@admin:example.org'' [''@bob:example.org'']) idle))))
     = [GetByMxid ''@bob:example.org'', IsLoggedIn ''@bob:example.org'',
        EnsureStarted ''@bob:example.org'',
        Recreate, UploadMedia ''tg://login?token=abc'',
        SendMessage ''!room''
          (MediaMessage ''tg://login?token=abc'' ''mxc://example.org/qr'' (ReplyTo ''$cmd'')),
        Wait, Reply two_factor_msg,
        EvtRedact, EnsureStarted ''@bob:example.org'',
        SignIn ''@bob:example.org'' (Password ''hunter2''),
        GetByTgid 42, CreateTask (PostLogin ''@admin:example.org'' user42 True),
        Reply ''Successfully logged in as @handle42'']"
  by (simp add: scenario_defs env_two_factor_def eval_defs prog_defs)

subsection \<open>C5: the QR message after a scan\<close>

text \<open>
  Claim C5 says that after a successful scan the published QR message is redacted before
  \<open>_finish_sign_in\<close> is called. The \<open>break\<close> after \<open>qr_login.wait()\<close> leaves the loop before
  the statement that redacts, which is therefore reached only after a timeout. In the first
  run below the code is scanned at once: no redaction is in the trace. In the second run
  the first wait times out: the message is redacted then, with the reason
  \<open>QR code scanned\<close>, the challenge is published again as an edit, and after the scan
  nothing is redacted.
\<close>

theorem login_qr_scan_not_redacted:
  "trace (snd (login_qr env_ok (evt_of ''@alice:example.org'' []) idle)) =
     [IsLoggedIn ''@alice:example.org'', EnsureStarted ''@alice:example.org'',
      Recreate, UploadMedia ''tg://login?token=abc'',
      SendMessage ''!room''
        (MediaMessage ''tg://login?token=abc'' ''mxc://example.org/qr'' (ReplyTo ''$cmd'')),
      Wait,
      GetByTgid 42, CreateTask (PostLogin ''@alice:example.org'' user42 True),
      Reply ''Successfully logged in as @handle42'']
   \<and> trace (snd (login_qr env_late_scan (evt_of ''@alice:example.org'' []) idle)) =
     [IsLoggedIn ''@alice:example.org'', EnsureStarted ''@alice:example.org'',
      Recreate, UploadMedia ''tg://login?token=abc'',
      SendMessage ''!room''
        (MediaMessage ''tg://login?token=abc'' ''mxc://example.org/qr'' (ReplyTo ''$cmd'')),
      Wait,
      IntentRedact ''!room'' (Some ''$sent'') ''QR code scanned'',
      Recreate, UploadMedia ''tg://login?token=abc'',
      SendMessage ''!room''
        (MediaMessage ''tg://login?token=abc'' ''mxc://example.org/qr'' (EditOf (Some ''$sent''))),
      Wait,
      GetByTgid 42, CreateTask (PostLogin ''@alice:example.org'' user42 True),
      Reply ''Successfully logged in as @handle42'']"
  by (simp add: scenario_defs env_late_scan_def eval_defs prog_defs)

subsection \<open>C6: a rejected password\<close>

text \<open>
  Claim C6. Let the slot hold the \<open>enter_password\<close> step. When \<open>enter_password\<close> is called
  with a password, in-Matrix login is allowed, the message is redacted, the session starts
  and the provider rejects the password as invalid, the next thing the command does is to
  reply \<open>Incorrect password.\<close>, and the slot afterwards is the slot before. So the same
  holds for the next submission: when the provider rejects every password, any number of
  submissions of the sender, one after the other, leave the slot as it was, and each of
  them is answered with \<open>Incorrect password.\<close>
\<close>

theorem enter_password_rejected_keeps_slot:
  assumes "command_status s = Some st" and "st_next st = EnterPassword"
  shows
   "(args evt \<noteq> [] \<and> config_get evt ''bridge.allow_matrix_login'' True
       \<and> la = (case get_login_as st of None \<Rightarrow> sender evt | Some a \<Rightarrow> a)
       \<and> pw = str_join '' '' (args evt)
       \<and> run_unit env (trace s) EvtRedact = Inr ()
       \<and> run_unit env (trace s @ [EvtRedact]) (EnsureStarted la) = Inr ()
       \<and> run_auth env (trace s @ [EvtRedact, EnsureStarted la]) (SignIn la (Password pw))
           = Inl PasswordHashInvalidError
     \<longrightarrow> prefix (trace s @ [EvtRedact, EnsureStarted la, SignIn la (Password pw),
                          Reply ''Incorrect password.''])
           (trace (snd (enter_password env evt s)))
         \<and> command_status (snd (enter_password env evt s)) = Some st)
    \<and> ((\<forall>h. run_unit env h EvtRedact = Inr ())
       \<and> (\<forall>h a. run_unit env h (EnsureStarted a) = Inr ())
       \<and> (\<forall>h a p. run_auth env h (SignIn a (Password p)) = Inl PasswordHashInvalidError)
       \<and> (\<forall>e \<in> set evts. sender e = who \<and> args e \<noteq> []
                            \<and> config_get e ''bridge.allow_matrix_login'' True)
     \<longrightarrow> command_status (fold (\<lambda>e s. snd (enter_password env e s)) evts s) = Some st
         \<and> (\<exists>new. trace (fold (\<lambda>e s. snd (enter_password env e s)) evts s) = trace s @ new
               \<and> length evts \<le> count_list new (Reply ''Incorrect password.'')))"
  using enter_password_rejected[OF _ _ assms(1), of evt la pw env]
    enter_password_rejected_again[OF _ _ _ _ assms(1), of env evts]
  by blast

text \<open>
  The theorem at a concrete input: Alice sends a wrong password of two words, and then two
  more wrong passwords.
\<close>

theorem enter_password_rejected_keeps_slot_witness:
  "prefix [EvtRedact, EnsureStarted ''@alice:example.org'',
           SignIn ''@alice:example.org'' (Password ''wrong pw''), Reply ''Incorrect password.'']
     (trace (snd (enter_password env_wrong_password
                    (evt_of ''@alice:example.org'' [''wrong'', ''pw'']) awaiting_password)))
   \<and> command_status (snd (enter_password env_wrong_password
                    (evt_of ''@alice:example.org'' [''wrong'', ''pw'']) awaiting_password))
       = Some \<lparr>st_next = EnterPassword, st_login_as = None,
                 st_action = ''Login (password entry)''\<rparr>
   \<and> command_status
        (fold (\<lambda>e s. snd (enter_password env_wrong_password e s))
           [evt_of ''@alice:example.org'' [''wrong'', ''pw''],
            evt_of ''@alice:example.org'' [''guess''],
            evt_of ''@alice:example.org'' [''12345'']] awaiting_password)
       = Some \<lparr>st_next = EnterPassword, st_login_as = None,
                 st_action = ''Login (password entry)''\<rparr>"
  using enter_password_rejected_keeps_slot[of awaiting_password
          "\<lparr>st_next = EnterPassword, st_login_as = None, st_action = ''Login (password entry)''\<rparr>"
          "evt_of ''@alice:example.org'' [''wrong'', ''pw'']"
          "''@alice:example.org''" "''wrong pw''" env_wrong_password
          "[evt_of ''@alice:example.org'' [''wrong'', ''pw''],
            evt_of ''@alice:example.org'' [''guess''],
            evt_of ''@alice:example.org'' [''12345'']]"]
  by (simp add: scenario_defs env_wrong_password_def awaiting_password_def config_get_def
        get_login_as_def)

subsection \<open>C7: the order of the two checks\<close>

text \<open>
  Claim C7, as amended. Each of \<open>enter_phone_or_token\<close>, \<open>enter_code\<close> and
  \<open>enter_password\<close> looks at the number of arguments first: without an argument it replies
  with its usage message and does nothing else, whatever \<open>bridge.allow_matrix_login\<close> says.
  Only with an argument is the flag read, and if it is off the command replies that
  in-Matrix login is not allowed and does nothing else. Both hold in every state of the
  slot, which neither check reads or writes.
\<close>

theorem continuation_targets_check_arguments_first:
  "(args evt = [] \<longrightarrow>
      trace (snd (enter_phone_or_token env evt s)) = trace s @
        [Reply ''**Usage:** `$cmdprefix+sp enter-phone-or-token <phone-or-token>`'']
      \<and> command_status (snd (enter_phone_or_token env evt s)) = command_status s
      \<and> trace (snd (enter_code env evt s)) = trace s @
        [Reply ''**Usage:** `$cmdprefix+sp enter-code <code>`'']
      \<and> command_status (snd (enter_code env evt s)) = command_status s
      \<and> trace (snd (enter_password env evt s)) = trace s @
        [Reply ''**Usage:** `$cmdprefix+sp enter-password <password>`'']
      \<and> command_status (snd (enter_password env evt s)) = command_status s)
   \<and> (args evt \<noteq> [] \<and> \<not> config_get evt ''bridge.allow_matrix_login'' True \<longrightarrow>
      trace (snd (enter_phone_or_token env evt s)) = trace s @ [Reply not_allowed_msg]
      \<and> command_status (snd (enter_phone_or_token env evt s)) = command_status s
      \<and> trace (snd (enter_code env evt s)) = trace s @ [Reply not_allowed_msg]
      \<and> command_status (snd (enter_code env evt s)) = command_status s
      \<and> trace (snd (enter_password env evt s)) = trace s @ [Reply not_allowed_msg]
      \<and> command_status (snd (enter_password env evt s)) = command_status s)"
  by (simp add: enter_phone_or_token_def enter_code_def enter_password_def return_reply)

text \<open>
  The theorem at two concrete inputs, on a bridge with the flag off: no argument, and one
  argument.
\<close>

theorem continuation_targets_check_arguments_first_witness:
  "trace (snd (enter_code env_ok (evt_disabled ''@alice:example.org'' []) awaiting_code))
     = [Reply ''**Usage:** `$cmdprefix+sp enter-code <code>`'']
   \<and> trace (snd (enter_code env_ok (evt_disabled ''@alice:example.org'' [''12345''])
                    awaiting_code))
     = [Reply not_allowed_msg]"
  using continuation_targets_check_arguments_first[of
          "evt_disabled ''@alice:example.org'' []" env_ok awaiting_code]
    continuation_targets_check_arguments_first[of
          "evt_disabled ''@alice:example.org'' [''12345'']" env_ok awaiting_code]
  by (simp add: scenario_defs evt_disabled_def awaiting_code_def config_get_def)

text \<open>
  Claim C7 as it was stated puts the flag first. With the flag off and no argument, the reply
  is the usage message, not the message about the flag.
\<close>

theorem enter_code_usage_before_flag:
  "trace (snd (enter_code env_ok (evt_disabled ''@alice:example.org'' []) idle))
     = [Reply ''**Usage:** `$cmdprefix+sp enter-code <code>`'']
   \<and> trace (snd (enter_code env_ok (evt_disabled ''@alice:example.org'' []) idle))
     \<noteq> [Reply not_allowed_msg]"
  by (simp add: scenario_defs evt_disabled_def config_get_def enter_code_def return_reply
        not_allowed_msg_def)

subsection \<open>C8: the slot after a code request\<close>

text \<open>
  Claim C8. \<open>_request_code\<close> first starts the session of the sender
  (\<open>ensure_started(even_if_no_session=True)\<close>). Afterwards the slot holds the step it was
  given if the session started and the provider accepted the code request, and is empty
  otherwise. When starting the session or the code request raises \<open>e\<close>, the call ends with
  the reply that belongs to \<open>e\<close>, the text of the \<open>except\<close> clause for that error, or, for
  any other error, a log entry and the generic text, and it returns what that reply
  returns; for a flood wait this supposes that the helper formats the duration, as \<open>d\<close>.
  \<open>enter_phone_or_token\<close> calls \<open>_request_code\<close>, for an identifier that is not a token,
  with the \<open>enter_code\<close> step.
\<close>

theorem request_code_slot:
  "(\<exists>rest. trace (snd (request_code env evt p nxt s))
             = trace s @ EnsureStarted (sender evt) # rest)
   \<and> command_status (snd (request_code env evt p nxt s)) =
       (if run_unit env (trace s) (EnsureStarted (sender evt)) = Inr ()
           \<and> run_unit env (trace s @ [EnsureStarted (sender evt)])
                 (SignIn (sender evt) (PhoneNumber p)) = Inr ()
        then Some nxt else None)
   \<and> ((run_unit env (trace s) (EnsureStarted (sender evt)) = Inl e
          \<and> h = trace s @ [EnsureStarted (sender evt)]
        \<or> run_unit env (trace s) (EnsureStarted (sender evt)) = Inr ()
          \<and> run_unit env (trace s @ [EnsureStarted (sender evt)])
                (SignIn (sender evt) (PhoneNumber p)) = Inl e
          \<and> h = trace s @ [EnsureStarted (sender evt), SignIn (sender evt) (PhoneNumber p)])
       \<and> (\<forall>n. e = FloodWaitError n \<longrightarrow> fmt_duration env n = Inr d)
      \<longrightarrow> (case (case e of
              PhoneNumberAppSignupForbiddenError \<Rightarrow>
                ([], ''Your phone number does not allow 3rd party apps to sign in.'')
            | PhoneNumberFloodError \<Rightarrow>
                ([], ''Your phone number has been temporarily blocked for flooding. '' @
                     ''The ban is usually applied for around a day.'')
            | FloodWaitError n \<Rightarrow>
                ([], ''Your phone number has been temporarily blocked for flooding. '' @
                     ''Please wait for '' @ d @ '' before trying again.'')
            | PhoneNumberBannedError \<Rightarrow>
                ([], ''Your phone number has been banned from Telegram.'')
            | PhoneNumberUnoccupiedError \<Rightarrow>
                ([], ''That phone number has not been registered. '' @
                     ''Please sign up to Telegram using an official mobile client first.'')
            | PhoneNumberInvalidError \<Rightarrow>
                ([], ''That phone number is not valid.'')
            | _ \<Rightarrow>
                ([LogException ''Error requesting phone code''],
                 ''Unhandled exception while requesting code. '' @
                 ''Check console for more details.'')) of
            (pre, msg) \<Rightarrow>
              request_code env evt p nxt s =
                (run_str env (h @ pre) (Reply msg),
                 s\<lparr>command_status := None, trace := h @ pre @ [Reply msg]\<rparr>)))
   \<and> (args evt = p # others \<and> config_get evt ''bridge.allow_matrix_login'' True
         \<and> \<not> 0 < str_find p CHR '':''
        \<longrightarrow> snd (enter_phone_or_token env evt s)
            = snd (request_code env evt p
                 \<lparr>st_next = EnterCode, st_login_as = None, st_action = ''Login''\<rparr> s))"
proof (intro conjI)
  let ?E = "EnsureStarted (sender evt)"
  have "prefix (trace s @ [?E]) (trace (snd (request_code env evt p nxt s)))"
  proof -
    obtain r ok s1 where b: "request_code_body env evt p s = (r, ok, s1)"
      by (cases "request_code_body env evt p s") auto
    have s1: "prefix (trace s @ [?E]) (trace s1)"
      using b by (auto simp: request_code_body_cases split: sum.splits)
    show ?thesis
    proof (cases r)
      case (Inr v)
      then show ?thesis using b s1 by (simp add: trace_request_code)
    next
      case (Inl e)
      have "prefix (trace s1) (trace (snd (request_code_except env e s1)))"
        by (rule prefix_only_adds[where P="\<lambda>_. True"])
           (simp add: only_adds_request_code_except)
      then show ?thesis using Inl b s1 by (auto simp: trace_request_code)
    qed
  qed
  then show "\<exists>rest. trace (snd (request_code env evt p nxt s))
             = trace s @ EnsureStarted (sender evt) # rest"
    by (auto simp: prefix_def)
next
  show "command_status (snd (request_code env evt p nxt s)) =
       (if run_unit env (trace s) (EnsureStarted (sender evt)) = Inr ()
           \<and> run_unit env (trace s @ [EnsureStarted (sender evt)])
                 (SignIn (sender evt) (PhoneNumber p)) = Inr ()
        then Some nxt else None)"
    by (simp add: status_request_code request_code_body_cases split: sum.splits)
next
  show "(run_unit env (trace s) (EnsureStarted (sender evt)) = Inl e
          \<and> h = trace s @ [EnsureStarted (sender evt)]
        \<or> run_unit env (trace s) (EnsureStarted (sender evt)) = Inr ()
          \<and> run_unit env (trace s @ [EnsureStarted (sender evt)])
                (SignIn (sender evt) (PhoneNumber p)) = Inl e
          \<and> h = trace s @ [EnsureStarted (sender evt), SignIn (sender evt) (PhoneNumber p)])
       \<and> (\<forall>n. e = FloodWaitError n \<longrightarrow> fmt_duration env n = Inr d)
      \<longrightarrow> (case (case e of
              PhoneNumberAppSignupForbiddenError \<Rightarrow>
                ([], ''Your phone number does not allow 3rd party apps to sign in.'')
            | PhoneNumberFloodError \<Rightarrow>
                ([], ''Your phone number has been temporarily blocked for flooding. '' @
                     ''The ban is usually applied for around a day.'')
            | FloodWaitError n \<Rightarrow>
                ([], ''Your phone number has been temporarily blocked for flooding. '' @
                     ''Please wait for '' @ d @ '' before trying again.'')
            | PhoneNumberBannedError \<Rightarrow>
                ([], ''Your phone number has been banned from Telegram.'')
            | PhoneNumberUnoccupiedError \<Rightarrow>
                ([], ''That phone number has not been registered. '' @
                     ''Please sign up to Telegram using an official mobile client first.'')
            | PhoneNumberInvalidError \<Rightarrow>
                ([], ''That phone number is not valid.'')
            | _ \<Rightarrow>
                ([LogException ''Error requesting phone code''],
                 ''Unhandled exception while requesting code. '' @
                 ''Check console for more details.'')) of
            (pre, msg) \<Rightarrow>
              request_code env evt p nxt s =
                (run_str env (h @ pre) (Reply msg),
                 s\<lparr>command_status := None, trace := h @ pre @ [Reply msg]\<rparr>))"
  proof
    assume a: "(run_unit env (trace s) (EnsureStarted (sender evt)) = Inl e
          \<and> h = trace s @ [EnsureStarted (sender evt)]
        \<or> run_unit env (trace s) (EnsureStarted (sender evt)) = Inr ()
          \<and> run_unit env (trace s @ [EnsureStarted (sender evt)])
                (SignIn (sender evt) (PhoneNumber p)) = Inl e
          \<and> h = trace s @ [EnsureStarted (sender evt), SignIn (sender evt) (PhoneNumber p)])
       \<and> (\<forall>n. e = FloodWaitError n \<longrightarrow> fmt_duration env n = Inr d)"
    then have b: "request_code_body env evt p s = (Inl e, False, s\<lparr>trace := h\<rparr>)"
      by (auto simp: request_code_body_cases)
    have d: "\<forall>n. e = FloodWaitError n \<longrightarrow> fmt_duration env n = Inr d"
      using a by blast
    show "case (case e of
              PhoneNumberAppSignupForbiddenError \<Rightarrow>
                ([], ''Your phone number does not allow 3rd party apps to sign in.'')
            | PhoneNumberFloodError \<Rightarrow>
                ([], ''Your phone number has been temporarily blocked for flooding. '' @
                     ''The ban is usually applied for around a day.'')
            | FloodWaitError n \<Rightarrow>
                ([], ''Your phone number has been temporarily blocked for flooding. '' @
                     ''Please wait for '' @ d @ '' before trying again.'')
            | PhoneNumberBannedError \<Rightarrow>
                ([], ''Your phone number has been banned from Telegram.'')
            | PhoneNumberUnoccupiedError \<Rightarrow>
                ([], ''That phone number has not been registered. '' @
                     ''Please sign up to Telegram using an official mobile client first.'')
            | PhoneNumberInvalidError \<Rightarrow>
                ([], ''That phone number is not valid.'')
            | _ \<Rightarrow>
                ([LogException ''Error requesting phone code''],
                 ''Unhandled exception while requesting code. '' @
                 ''Check console for more details.'')) of
            (pre, msg) \<Rightarrow>
              request_code env evt p nxt s =
                (run_str env (h @ pre) (Reply msg),
                 s\<lparr>command_status := None, trace := h @ pre @ [Reply msg]\<rparr>)"
      using request_code_except_answer[OF d, of "s\<lparr>trace := h\<rparr>"]
      by (simp add: request_code_failed[OF b] split: prod.splits)
  qed
next
  show "args evt = p # others \<and> config_get evt ''bridge.allow_matrix_login'' True
         \<and> \<not> 0 < str_find p CHR '':''
        \<longrightarrow> snd (enter_phone_or_token env evt s)
            = snd (request_code env evt p
                 \<lparr>st_next = EnterCode, st_login_as = None, st_action = ''Login''\<rparr> s)"
    by (auto simp: enter_phone_or_token_def seq_def ret_def split: prod.splits sum.splits)
qed

text \<open>
  The theorem at three concrete inputs: the provider accepts the request; the provider
  says that the number is banned, while an older step is still installed; the provider
  asks to wait for an hour.
\<close>

theorem request_code_slot_witness:
  "command_status (snd (request_code env_ok (evt_of ''@alice:example.org'' [''12025550123''])
       ''12025550123'' \<lparr>st_next = EnterCode, st_login_as = None, st_action = ''Login''\<rparr> idle))
     = Some \<lparr>st_next = EnterCode, st_login_as = None, st_action = ''Login''\<rparr>
   \<and> request_code env_banned (evt_of ''@alice:example.org'' [''12025550123''])
       ''12025550123'' \<lparr>st_next = EnterCode, st_login_as = None, st_action = ''Login''\<rparr>
       awaiting_code
     = (Inr ''$sent'',
        \<lparr>command_status = None,
         trace = [EnsureStarted ''@alice:example.org'',
                  SignIn ''@alice:example.org'' (PhoneNumber ''12025550123''),
                  Reply ''Your phone number has been banned from Telegram.'']\<rparr>)
   \<and> request_code env_flood_wait (evt_of ''@alice:example.org'' [''12025550123''])
       ''12025550123'' \<lparr>st_next = EnterCode, st_login_as = None, st_action = ''Login''\<rparr>
       awaiting_code
     = (Inr ''$sent'',
        \<lparr>command_status = None,
         trace = [EnsureStarted ''@alice:example.org'',
                  SignIn ''@alice:example.org'' (PhoneNumber ''12025550123''),
                  Reply (''Your phone number has been temporarily blocked for flooding. '' @
                         ''Please wait for 1 hour before trying again.'')]\<rparr>)
   \<and> snd (enter_phone_or_token env_ok (evt_of ''@alice:example.org'' [''12025550123'']) idle)
     = snd (request_code env_ok (evt_of ''@alice:example.org'' [''12025550123''])
       ''12025550123'' \<lparr>st_next = EnterCode, st_login_as = None, st_action = ''Login''\<rparr> idle)"
  using request_code_slot[where env=env_ok and evt="evt_of ''@alice:example.org'' [''12025550123'']"
          and p="''12025550123''"
          and nxt="\<lparr>st_next = EnterCode, st_login_as = None, st_action = ''Login''\<rparr>"
          and s=idle and others="[]"]
        request_code_slot[where env=env_banned
          and evt="evt_of ''@alice:example.org'' [''12025550123'']"
          and p="''12025550123''"
          and nxt="\<lparr>st_next = EnterCode, st_login_as = None, st_action = ''Login''\<rparr>"
          and s=awaiting_code and e=PhoneNumberBannedError
          and h="[EnsureStarted ''@alice:example.org'',
                  SignIn ''@alice:example.org'' (PhoneNumber ''12025550123'')]"]
        request_code_slot[where env=env_flood_wait
          and evt="evt_of ''@alice:example.org'' [''12025550123'']"
          and p="''12025550123''"
          and nxt="\<lparr>st_next = EnterCode, st_login_as = None, st_action = ''Login''\<rparr>"
          and s=awaiting_code and e="FloodWaitError 3600" and d="''1 hour''"
          and h="[EnsureStarted ''@alice:example.org'',
                  SignIn ''@alice:example.org'' (PhoneNumber ''12025550123'')]"]
  by (simp add: scenario_defs env_banned_def env_flood_wait_def awaiting_code_def config_get_def)

subsection \<open>C9: phone number or bot token\<close>

text \<open>
  Claim C9. When \<open>enter_phone_or_token\<close> is called with an identifier \<open>a\<close>, in-Matrix login
  is allowed and the session starts, the call made to the provider is a sign-in with \<open>a\<close>
  as bot token if \<open>a\<close> contains a \<open>:\<close> and does not begin with one, and a code request for
  \<open>a\<close> as phone number otherwise, that is, if \<open>a\<close> contains no \<open>:\<close> or begins with one.
  The first case is exactly the case that the first \<open>:\<close> of \<open>a\<close> is at an index of at
  least 1.
\<close>

theorem enter_phone_or_token_dispatch:
  assumes "args evt = a # rest"
    and "config_get evt ''bridge.allow_matrix_login'' True"
    and "run_unit env (trace s) (EnsureStarted (sender evt)) = Inr ()"
  shows "prefix
           (trace s @
            [EnsureStarted (sender evt),
             SignIn (sender evt)
               (if CHR '':'' \<in> set a \<and> a ! 0 \<noteq> CHR '':'' then BotToken a else PhoneNumber a)])
           (trace (snd (enter_phone_or_token env evt s)))
         \<and> ((CHR '':'' \<in> set a \<and> a ! 0 \<noteq> CHR '':'') \<longleftrightarrow>
              (\<exists>i. 1 \<le> i \<and> i < length a \<and> a ! i = CHR '':'' \<and> CHR '':'' \<notin> set (take i a)))"
proof
  have "0 < str_find a CHR '':'' \<longleftrightarrow> CHR '':'' \<in> set a \<and> a ! 0 \<noteq> CHR '':''"
    using str_find_not_pos_iff[of a "CHR '':''"] by auto
  then show "prefix
           (trace s @
            [EnsureStarted (sender evt),
             SignIn (sender evt)
               (if CHR '':'' \<in> set a \<and> a ! 0 \<noteq> CHR '':'' then BotToken a else PhoneNumber a)])
           (trace (snd (enter_phone_or_token env evt s)))"
    using enter_phone_or_token_asks_provider[OF assms] by simp
next
  show "(CHR '':'' \<in> set a \<and> a ! 0 \<noteq> CHR '':'') \<longleftrightarrow>
              (\<exists>i. 1 \<le> i \<and> i < length a \<and> a ! i = CHR '':'' \<and> CHR '':'' \<notin> set (take i a))"
    using str_find_not_pos_iff[of a "CHR '':''"] str_find_pos_iff[of a "CHR '':''"] by auto
qed

text \<open>
  The theorem at two concrete inputs: \<open>123:abc\<close> is sent as a bot token, \<open>:123\<close> as a
  phone number.
\<close>

theorem enter_phone_or_token_dispatch_witness:
  "prefix [EnsureStarted ''@alice:example.org'',
           SignIn ''@alice:example.org'' (BotToken ''123:abc'')]
     (trace (snd (enter_phone_or_token env_ok (evt_of ''@alice:example.org'' [''123:abc'']) idle)))
   \<and> prefix [EnsureStarted ''@alice:example.org'',
           SignIn ''@alice:example.org'' (PhoneNumber '':123'')]
     (trace (snd (enter_phone_or_token env_ok (evt_of ''@alice:example.org'' ['':123'']) idle)))"
  using enter_phone_or_token_dispatch[of "evt_of ''@alice:example.org'' [''123:abc'']"
          "''123:abc''" "[]" env_ok idle, THEN conjunct1]
    enter_phone_or_token_dispatch[of "evt_of ''@alice:example.org'' ['':123'']"
          "'':123''" "[]" env_ok idle, THEN conjunct1]
  by (simp add: scenario_defs config_get_def)

subsection \<open>C10: the password is all the arguments\<close>

text \<open>
  Claim C10. Whatever \<open>enter_password\<close> does, every sign-in call it makes carries as
  password the arguments joined by single spaces. When there is an argument, in-Matrix
  login is allowed, a step is installed, the message is redacted and the session starts,
  that call is made. With two or more arguments the password is the first argument, a
  space and the join of the rest, so it is longer than the first argument alone.
\<close>

theorem enter_password_joins_arguments:
  "(\<exists>new. trace (snd (enter_password env evt s)) = trace s @ new
       \<and> (\<forall>who info. SignIn who info \<in> set new \<longrightarrow>
             info = Password (str_join '' '' (args evt))))
   \<and> (args evt \<noteq> [] \<and> config_get evt ''bridge.allow_matrix_login'' True
        \<and> command_status s = Some st
        \<and> la = (case get_login_as st of None \<Rightarrow> sender evt | Some a \<Rightarrow> a)
        \<and> run_unit env (trace s) EvtRedact = Inr ()
        \<and> run_unit env (trace s @ [EvtRedact]) (EnsureStarted la) = Inr ()
      \<longrightarrow> prefix (trace s @ [EvtRedact, EnsureStarted la,
                     SignIn la (Password (str_join '' '' (args evt)))])
            (trace (snd (enter_password env evt s))))
   \<and> (\<forall>x y ys. args evt = x # y # ys \<longrightarrow>
        str_join '' '' (args evt) = x @ '' '' @ str_join '' '' (y # ys)
        \<and> strict_prefix x (str_join '' '' (args evt)))"
proof (intro conjI)
  let ?P = "\<lambda>a. \<forall>who info. a = SignIn who info \<longrightarrow> info = Password (str_join '' '' (args evt))"
  have "only_adds ?P (enter_password env evt)"
    by (rule only_adds_enter_password) auto
  then obtain new where new: "trace (snd (enter_password env evt s)) = trace s @ new"
    "list_all ?P new"
    using only_addsD by blast
  from new(2) have "\<forall>who info. SignIn who info \<in> set new \<longrightarrow>
             info = Password (str_join '' '' (args evt))"
    by (auto simp: list_all_iff)
  with new(1) show "\<exists>new. trace (snd (enter_password env evt s)) = trace s @ new
       \<and> (\<forall>who info. SignIn who info \<in> set new \<longrightarrow>
             info = Password (str_join '' '' (args evt)))"
    by blast
next
  show "args evt \<noteq> [] \<and> config_get evt ''bridge.allow_matrix_login'' True
        \<and> command_status s = Some st
        \<and> la = (case get_login_as st of None \<Rightarrow> sender evt | Some a \<Rightarrow> a)
        \<and> run_unit env (trace s) EvtRedact = Inr ()
        \<and> run_unit env (trace s @ [EvtRedact]) (EnsureStarted la) = Inr ()
      \<longrightarrow> prefix (trace s @ [EvtRedact, EnsureStarted la,
                     SignIn la (Password (str_join '' '' (args evt)))])
            (trace (snd (enter_password env evt s)))"
    using enter_password_asks_provider by blast
next
  show "\<forall>x y ys. args evt = x # y # ys \<longrightarrow>
        str_join '' '' (args evt) = x @ '' '' @ str_join '' '' (y # ys)
        \<and> strict_prefix x (str_join '' '' (args evt))"
    using str_join_strict_prefix by auto
qed

text \<open>The theorem at a concrete input: a password of three words.\<close>

theorem enter_password_joins_arguments_witness:
  "prefix [EvtRedact, EnsureStarted ''@alice:example.org'',
           SignIn ''@alice:example.org'' (Password ''correct horse battery'')]
     (trace (snd (enter_password env_ok
                    (evt_of ''@alice:example.org'' [''correct'', ''horse'', ''battery''])
                    awaiting_password)))
   \<and> strict_prefix ''correct'' (str_join '' '' [''correct'', ''horse'', ''battery''])"
  using enter_password_joins_arguments[of env_ok
          "evt_of ''@alice:example.org'' [''correct'', ''horse'', ''battery'']"
          awaiting_password
          "\<lparr>st_next = EnterPassword, st_login_as = None, st_action = ''Login (password entry)''\<rparr>"
          "''@alice:example.org''"]
  by (simp add: scenario_defs awaiting_password_def config_get_def get_login_as_def)

end
